theory Spec2Isabelle
  imports Complex_Main "HOL-Library.Multiset"
begin

section \<open>Tensors, errors and the floating-point idealisation\<close>

text \<open>
  The aggregations of \<^verbatim>\<open>rgnn_at_scale/aggregation.py\<close> are modelled over lists:
  a one-dimensional tensor is a list, an \<open>[n, d]\<close> tensor is a list of \<open>n\<close> rows,
  an \<open>[n, k, k]\<close> tensor a list of \<open>n\<close> matrices. Index tensors hold integers, so
  that the sentinel \<open>-1\<close> of the top-k selection is a value of the model.

  Floating-point numbers are idealised as real numbers: rounding is not modelled, and
  neither are NaN and the infinities. The two constants of \<^verbatim>\<open>torch.finfo(torch.float32)\<close>
  that the source reads are the definitions \<open>flt_max\<close> and \<open>flt_eps\<close>. Where the source
  tests \<^verbatim>\<open>torch.isfinite\<close>, the model tests whether the real number lies within the
  range of float32, because a float32 computation of a larger magnitude has overflowed
  to an infinity at that point.

  Every \<^verbatim>\<open>raise\<close> of the source and every failing library call that the model covers
  is a value \<open>Inl e\<close> of the result type.
\<close>

datatype error = ZeroDivisionError | IndexError | ValueError | NotImplementedError | RuntimeError

type_synonym vec = "real list"
type_synonym mat = "real list list"

definition flt_max :: real where
  "flt_max = (2 - 1 / 2 ^ 23) * 2 ^ 127"

definition flt_eps :: real where
  "flt_eps = 1 / 2 ^ 23"

definition isfinite :: "real \<Rightarrow> bool" where
  "isfinite r \<longleftrightarrow> \<bar>r\<bar> \<le> flt_max"

text \<open>\<^verbatim>\<open>t[~torch.isfinite(t)] = torch.finfo(t.dtype).max\<close>, on one entry.\<close>

definition replace_nonfinite :: "real \<Rightarrow> real" where
  "replace_nonfinite r = (if isfinite r then r else flt_max)"

section \<open>The chunking driver\<close>

text \<open>
  \<^verbatim>\<open>Chunker.__init__\<close>: \<^verbatim>\<open>chunk_size = int(math.ceil(n / n_chunks))\<close>, the lists
  \<^verbatim>\<open>lower\<close> and \<^verbatim>\<open>upper\<close> of block bounds, and \<^verbatim>\<open>upper[-1] = n\<close>. The sizes are
  natural numbers. The division raises for \<open>n_chunks = 0\<close>.
\<close>

record chunker =
  ch_n :: nat
  ch_n_chunks :: nat
  ch_requires_grad :: bool
  ch_do_synchronize :: bool
  ch_chunk_size :: nat
  ch_lower :: "nat list"
  ch_upper :: "nat list"

definition Chunker :: "nat \<Rightarrow> nat \<Rightarrow> bool \<Rightarrow> bool \<Rightarrow> error + chunker" where
  "Chunker n n_chunks requires_grad do_synchronize =
     (if n_chunks = 0 then Inl ZeroDivisionError
      else
        let chunk_size = nat \<lceil>real n / real n_chunks\<rceil>;
            lower = map (\<lambda>chunk. chunk * chunk_size) [0..<n_chunks];
            upper = map (\<lambda>chunk. (chunk + 1) * chunk_size) [0..<n_chunks];
            upper = upper[length upper - 1 := n]
        in Inr \<lparr>ch_n = n, ch_n_chunks = n_chunks, ch_requires_grad = requires_grad,
                ch_do_synchronize = do_synchronize, ch_chunk_size = chunk_size,
                ch_lower = lower, ch_upper = upper\<rparr>)"

text \<open>
  \<^verbatim>\<open>torch.utils.checkpoint.checkpoint(f, *inputs)\<close> returns what \<^verbatim>\<open>f(*inputs)\<close> returns; it
  only changes what is kept for the backward pass, which is outside the model.
\<close>

definition checkpoint :: "('a \<Rightarrow> 'b) \<Rightarrow> 'a \<Rightarrow> 'b" where
  "checkpoint f inputs = f inputs"

text \<open>
  \<^verbatim>\<open>Chunker.chunk\<close>: one call of \<^verbatim>\<open>get_run(lower, upper)\<close> per block, the results
  concatenated along the rows (\<^verbatim>\<open>torch.cat\<close>). A block that fails makes the call fail.
\<close>

fun chunk_loop :: "(nat \<Rightarrow> nat \<Rightarrow> 'i \<Rightarrow> error + 'r list) \<Rightarrow> bool \<Rightarrow> 'i \<Rightarrow> (nat \<times> nat) list
    \<Rightarrow> error + 'r list" where
  "chunk_loop get_run rg inputs [] = Inr []"
| "chunk_loop get_run rg inputs ((lower, upper) # bs) =
     (case (if rg then checkpoint (get_run lower upper) inputs else get_run lower upper inputs) of
        Inl e \<Rightarrow> Inl e
      | Inr block \<Rightarrow>
          (case chunk_loop get_run rg inputs bs of
             Inl e \<Rightarrow> Inl e
           | Inr rest \<Rightarrow> Inr (block @ rest)))"

definition chunk :: "chunker \<Rightarrow> (nat \<Rightarrow> nat \<Rightarrow> 'i \<Rightarrow> error + 'r list) \<Rightarrow> 'i \<Rightarrow> error + 'r list" where
  "chunk c get_run inputs =
     chunk_loop get_run (ch_requires_grad c) inputs (zip (ch_lower c) (ch_upper c))"

text \<open>
  \<^verbatim>\<open>chunked_message_and_aggregate\<close>. The adjacency type and its row slicing
  \<^verbatim>\<open>adj[lower:upper, :]\<close> belong to the sparse-tensor library, so the slicing is the
  parameter \<open>row_slice\<close>; \<open>weights_require_grad\<close> is
  \<^verbatim>\<open>adj_t.coo()[-1].requires_grad\<close>. Without gradient tracking the aggregation is applied
  to the whole adjacency, unchunked.
\<close>

definition chunked_message_and_aggregate ::
  "('adj \<Rightarrow> nat \<Rightarrow> nat \<Rightarrow> error + 'adj) \<Rightarrow> bool \<Rightarrow> 'adj \<Rightarrow> 'x list \<Rightarrow> nat
    \<Rightarrow> ('adj \<Rightarrow> 'x list \<Rightarrow> error + 'r list) \<Rightarrow> error + 'r list" where
  "chunked_message_and_aggregate row_slice weights_require_grad adj_t x n_chunks aggregation_function =
     (let n = length x in
      if \<not> weights_require_grad then aggregation_function adj_t x
      else
        (let row_chunked_matmul = (\<lambda>lower upper (adj, x).
               case row_slice adj lower upper of
                 Inl e \<Rightarrow> Inl e
               | Inr block \<Rightarrow> aggregation_function block x)
         in case Chunker n n_chunks True False of
              Inl e \<Rightarrow> Inl e
            | Inr chunker \<Rightarrow> chunk chunker row_chunked_matmul (adj_t, x)))"

section \<open>Tensor operations\<close>

text \<open>An \<open>[n, d]\<close> tensor: \<open>n\<close> rows of length \<open>d\<close>.\<close>

definition is_matrix :: "nat \<Rightarrow> nat \<Rightarrow> 'a list list \<Rightarrow> bool" where
  "is_matrix n d x \<longleftrightarrow> length x = n \<and> list_all (\<lambda>row. length row = d) x"

definition dot :: "vec \<Rightarrow> vec \<Rightarrow> real" where
  "dot u v = sum_list (map2 (*) u v)"

definition vsub :: "vec \<Rightarrow> vec \<Rightarrow> vec" where
  "vsub u v = map2 (-) u v"

text \<open>
  \<^verbatim>\<open>torch.norm(v)\<close> on one row: the Euclidean norm, over the real numbers. The code squares
  and adds in floating point; the overflow of a difference, a square or the sum is modelled
  by \<open>norm2_ieee\<close> below.
\<close>

definition norm2 :: "vec \<Rightarrow> real" where
  "norm2 v = sqrt (sum_list (map (\<lambda>a. a ^ 2) v))"

text \<open>
  Row \<open>w\<close> of a weight matrix times the feature matrix \<open>x\<close> with \<open>d\<close> columns
  (\<^verbatim>\<open>w @ x\<close>): entry \<open>c\<close> is the sum over the nodes \<open>j\<close> of \<open>w[j] * x[j][c]\<close>.
\<close>

definition row_matmul :: "vec \<Rightarrow> mat \<Rightarrow> nat \<Rightarrow> vec" where
  "row_matmul w x d = map (\<lambda>c. sum_list (map2 (\<lambda>a row. a * row ! c) w x)) [0..<d]"

text \<open>The number of columns of a feature matrix (\<^verbatim>\<open>x.shape[1]\<close>).\<close>

definition ncols :: "'a list list \<Rightarrow> nat" where
  "ncols x = (case x of [] \<Rightarrow> 0 | row # _ \<Rightarrow> length row)"

text \<open>\<^verbatim>\<open>F.softmax(v, dim=-1)\<close> on one row.\<close>

definition softmax :: "vec \<Rightarrow> vec" where
  "softmax v = map (\<lambda>a. exp a / sum_list (map exp v)) v"

text \<open>
  \<^verbatim>\<open>t.argmin(-1)\<close> on one row: the index of the first minimal entry. \<^verbatim>\<open>argsort\<close>: the
  positions in ascending order of their entries; the model takes the stable order, the
  libraries leave the order of equal entries open.
\<close>

definition argmin :: "real list \<Rightarrow> nat" where
  "argmin v = length (takeWhile (\<lambda>a. a \<noteq> Min (set v)) v)"

definition argsort :: "'a :: linorder list \<Rightarrow> nat list" where
  "argsort v = map snd (sort_key fst (zip v [0..<length v]))"

text \<open>
  \<^verbatim>\<open>torch_scatter.scatter_sum(src, index)\<close>: entry \<open>i\<close> sums the entries of \<open>src\<close> whose
  index is \<open>i\<close>; the result has one entry per index up to the largest one that occurs.
\<close>

definition scatter_sum :: "real list \<Rightarrow> nat list \<Rightarrow> real list" where
  "scatter_sum src index =
     map (\<lambda>i. sum_list (map fst (filter (\<lambda>(s, j). j = i) (zip src index))))
       [0..<(if index = [] then 0 else Suc (foldr max index 0))]"

text \<open>
  Assignment through index tensors, \<^verbatim>\<open>t[rows, cols] = vals\<close>, entry by entry, on a matrix
  and on one row.
\<close>

fun index_put :: "'a list list \<Rightarrow> nat list \<Rightarrow> nat list \<Rightarrow> 'a list \<Rightarrow> 'a list list" where
  "index_put t (r # rows) (c # cols) (v # vals) = index_put (t[r := (t ! r)[c := v]]) rows cols vals"
| "index_put t _ _ _ = t"

fun index_put_row :: "'a list \<Rightarrow> nat list \<Rightarrow> 'a list \<Rightarrow> 'a list" where
  "index_put_row t (c # cols) (v # vals) = index_put_row (t[c := v]) cols vals"
| "index_put_row t _ _ = t"

text \<open>Boolean-mask indexing: \<^verbatim>\<open>t[mask]\<close> and \<^verbatim>\<open>t[mask] = vals\<close>.\<close>

definition select_mask :: "bool list \<Rightarrow> 'a list \<Rightarrow> 'a list" where
  "select_mask msk t = map snd (filter fst (zip msk t))"

fun masked_assign :: "'a list \<Rightarrow> bool list \<Rightarrow> 'a list \<Rightarrow> 'a list" where
  "masked_assign (t # ts) (m # ms) vals =
     (if m then (case vals of [] \<Rightarrow> t # ts | v # vals' \<Rightarrow> v # masked_assign ts ms vals')
      else t # masked_assign ts ms vals)"
| "masked_assign ts _ _ = ts"

text \<open>\<^verbatim>\<open>t.view(n, k1, k2)\<close> of a flat tensor.\<close>

definition view3 :: "nat \<Rightarrow> nat \<Rightarrow> nat \<Rightarrow> 'a list \<Rightarrow> 'a list list list" where
  "view3 n k1 k2 t = map (\<lambda>i. map (\<lambda>a. take k2 (drop ((i * k1 + a) * k2) t)) [0..<k1]) [0..<n]"

text \<open>
  Reading row \<open>j\<close> of a tensor through an index tensor: a negative index counts from the
  end, an index out of range raises.
\<close>

definition tensor_row :: "'a list \<Rightarrow> int \<Rightarrow> error + 'a" where
  "tensor_row x j =
     (let n = int (length x) in
      if 0 \<le> j \<and> j < n then Inr (x ! nat j)
      else if - n \<le> j \<and> j < 0 then Inr (x ! nat (n + j))
      else Inl IndexError)"

text \<open>All results of a list of fallible computations, or the first error.\<close>

fun sequence :: "(error + 'a) list \<Rightarrow> error + 'a list" where
  "sequence [] = Inr []"
| "sequence (Inl e # rs) = Inl e"
| "sequence (Inr v # rs) = (case sequence rs of Inl e \<Rightarrow> Inl e | Inr vs \<Rightarrow> Inr (v # vs))"

section \<open>Adjacency matrices\<close>

text \<open>
  A sparse adjacency in coordinate format: the row indices, the column indices and the
  weights of its entries, as \<^verbatim>\<open>A.coo()\<close> returns them, and the number \<open>n\<close> of nodes. A
  dense adjacency is a matrix. \<^verbatim>\<open>to_dense\<close> sums the weights stored for one position.
\<close>

record sparse_tensor =
  st_rows :: "nat list"
  st_cols :: "nat list"
  st_values :: "real list"
  st_size :: nat

datatype adjacency = Dense mat | Sparse sparse_tensor

definition sparse_to_dense :: "sparse_tensor \<Rightarrow> mat" where
  "sparse_to_dense A =
     map (\<lambda>i. map (\<lambda>j. sum_list (map snd (filter (\<lambda>(p, v). p = (i, j))
                                   (zip (zip (st_rows A) (st_cols A)) (st_values A)))))
                [0..<st_size A])
       [0..<st_size A]"

fun is_sparse :: "adjacency \<Rightarrow> bool" where
  "is_sparse (Dense m) = False"
| "is_sparse (Sparse A) = True"

fun to_dense :: "adjacency \<Rightarrow> mat" where
  "to_dense (Dense m) = m"
| "to_dense (Sparse A) = sparse_to_dense A"

text \<open>
  \<^verbatim>\<open>A.coo()\<close>; of a dense matrix, the entries other than zero in row-major order
  (\<^verbatim>\<open>SparseTensor.from_dense\<close>).
\<close>

definition from_dense :: "mat \<Rightarrow> sparse_tensor" where
  "from_dense m =
     (let es = concat (map (\<lambda>(i, row). map (\<lambda>(j, v). (i, j, v))
                              (filter (\<lambda>(j, v). v \<noteq> 0) (zip [0..<length row] row)))
                       (zip [0..<length m] m))
      in \<lparr>st_rows = map fst es, st_cols = map (fst \<circ> snd) es, st_values = map (snd \<circ> snd) es,
          st_size = length m\<rparr>)"

fun coo :: "adjacency \<Rightarrow> nat list \<times> nat list \<times> real list" where
  "coo (Sparse A) = (st_rows A, st_cols A, st_values A)"
| "coo (Dense m) = (let A = from_dense m in (st_rows A, st_cols A, st_values A))"

section \<open>The distance primitive\<close>

text \<open>
  \<^verbatim>\<open>_distance_matrix\<close>: the squared distances by the expansion
  \<open>|a|\<^sup>2 + |b|\<^sup>2 - 2 a\<cdot>b\<close>, then \<^verbatim>\<open>sqrt(abs(squared) + eps)\<close> with
  \<^verbatim>\<open>eps = eps_factor * torch.finfo(x.dtype).eps\<close>. Every caller uses the default
  \<^verbatim>\<open>eps_factor = 1e2\<close>.
\<close>

definition distance_matrix :: "mat \<Rightarrow> real \<Rightarrow> mat" where
  "distance_matrix x eps_factor =
     (let x_norm = map (\<lambda>row. sum_list (map (\<lambda>a. a ^ 2) row)) x;
          squared = map (\<lambda>(ni, u). map (\<lambda>(nj, v). ni + nj - 2 * dot u v) (zip x_norm x))
                      (zip x_norm x);
          eps = eps_factor * flt_eps
      in map (map (\<lambda>s. sqrt (\<bar>s\<bar> + eps))) squared)"

text \<open>
  \<^verbatim>\<open>partial_distance_matrix\<close>. The flat index tensors \<open>idx_row\<close> and \<open>idx_column\<close> hold,
  at position \<open>(i, a, b)\<close>, the entries \<open>partial_idx[i, b]\<close> and \<open>partial_idx[i, a]\<close>. The
  pairs without a sentinel are ordered (smaller index first), turned into the linear
  index \<open>row * n + column\<close> and deduplicated by \<^verbatim>\<open>torch.unique\<close>, which returns the sorted
  distinct values and, for every input position, the position of its value among them.
  \<open>distance_matrix_idx\<close> is the list of linear indices for which a distance is computed.
\<close>

definition unique :: "int list \<Rightarrow> int list" where
  "unique t = sort (remdups t)"

definition unique_inverse :: "int list \<Rightarrow> int list \<Rightarrow> nat list" where
  "unique_inverse us t = map (\<lambda>v. length (takeWhile (\<lambda>u. u \<noteq> v) us)) t"

definition pd_idx_row :: "int list list \<Rightarrow> int list" where
  "pd_idx_row partial_idx =
     concat (map (\<lambda>row. concat (replicate (ncols partial_idx) row)) partial_idx)"

definition pd_idx_column :: "int list list \<Rightarrow> int list" where
  "pd_idx_column partial_idx =
     concat (map (\<lambda>row. concat (map (replicate (ncols partial_idx)) row)) partial_idx)"

definition pd_missing_mask :: "int list list \<Rightarrow> bool list" where
  "pd_missing_mask partial_idx =
     map2 (\<lambda>r c. r \<noteq> - 1 \<and> c \<noteq> - 1) (pd_idx_row partial_idx) (pd_idx_column partial_idx)"

definition pd_linear_index :: "int list list \<Rightarrow> int list" where
  "pd_linear_index partial_idx =
     (let n = length partial_idx;
          missing_mask = pd_missing_mask partial_idx;
          idx_row = select_mask missing_mask (pd_idx_row partial_idx);
          idx_column = select_mask missing_mask (pd_idx_column partial_idx);
          symmetry_mask = map2 (\<lambda>r c. c < r) idx_row idx_column;
          idx_row' = map (\<lambda>(s, r, c). if s then c else r) (zip symmetry_mask (zip idx_row idx_column));
          idx_column' = map (\<lambda>(s, r, c). if s then r else c) (zip symmetry_mask (zip idx_row idx_column))
      in map2 (\<lambda>r c. r * int n + c) idx_row' idx_column')"

definition distance_matrix_idx :: "int list list \<Rightarrow> int list" where
  "distance_matrix_idx partial_idx = unique (pd_linear_index partial_idx)"

definition partial_distance_matrix :: "mat \<Rightarrow> int list list \<Rightarrow> error + real list list list" where
  "partial_distance_matrix x partial_idx =
     (let n = length partial_idx;
          k = ncols partial_idx;
          missing_mask = pd_missing_mask partial_idx;
          linear_index = pd_linear_index partial_idx;
          unique_reverse_index = unique_inverse (distance_matrix_idx partial_idx) linear_index
      in case sequence (map (\<lambda>u.
                 case tensor_row x (u div int n) of
                   Inl e \<Rightarrow> Inl e
                 | Inr xa \<Rightarrow>
                     (case tensor_row x (u mod int n) of
                        Inl e \<Rightarrow> Inl e
                      | Inr xb \<Rightarrow> Inr (norm2 (vsub xa xb))))
               (distance_matrix_idx partial_idx)) of
           Inl e \<Rightarrow> Inl e
         | Inr sparse_distances \<Rightarrow>
             (let out = replicate (n * k * k) 0;
                  out = masked_assign out missing_mask (map (\<lambda>t. sparse_distances ! t) unique_reverse_index)
              in Inr (view3 n k k out)))"

section \<open>The top-k neighbour selector (CPU path)\<close>

text \<open>
  \<^verbatim>\<open>_select_k_idx_cpu\<close> with \<^verbatim>\<open>method = 'top'\<close>, the only method its caller passes. The
  row and column indices are reordered by \<^verbatim>\<open>sort_idx = row_idx.argsort()\<close>; \<^verbatim>\<open>values\<close> is
  read as it was passed. The loop over the rows keeps \<open>row_idx_start\<close> and the three result
  lists; \<open>select_k_row\<close> is its body for row \<open>i\<close>, and the inner \<^verbatim>\<open>while\<close> loop is
  \<open>scan_row_end\<close>. The compiled loop reads \<^verbatim>\<open>k_per_row[i]\<close> without a
  bounds check; the model makes a read beyond the end of \<open>k_per_row\<close> an error.
\<close>

function scan_row_end :: "nat list \<Rightarrow> nat \<Rightarrow> nat \<Rightarrow> nat" where
  "scan_row_end row_idx i row_idx_end =
     (if row_idx_end < length row_idx \<and> row_idx ! row_idx_end < i + 1
      then scan_row_end row_idx i (row_idx_end + 1)
      else row_idx_end)"
  by pat_completeness auto
termination
  by (relation "measure (\<lambda>(row_idx, i, row_idx_end). length row_idx - row_idx_end)") auto

definition select_k_row :: "nat list \<Rightarrow> nat list \<Rightarrow> real list \<Rightarrow> nat list \<Rightarrow> nat \<Rightarrow> nat
    \<Rightarrow> (nat list \<times> nat list) list \<times> nat list list \<times> nat list list
    \<Rightarrow> nat \<times> (nat list \<times> nat list) list \<times> nat list list \<times> nat list list" where
  "select_k_row row_idx col_idx values k_per_row row_idx_start i acc =
     (case acc of (new_idx, valiue_idx, unroll_idx) \<Rightarrow>
        let k_of_row = k_per_row ! i;
            row_idx_end = scan_row_end row_idx i row_idx_start;
            curr_idx = take k_of_row
                         (argsort (map uminus (take (row_idx_end - row_idx_start) (drop row_idx_start values))))
        in (row_idx_end,
            if 0 < k_of_row
            then (new_idx @ [(map (\<lambda>c. i) curr_idx, map (\<lambda>c. col_idx ! (row_idx_start + c)) curr_idx)],
                  valiue_idx @ [map (\<lambda>c. row_idx_start + c) curr_idx],
                  unroll_idx @ [[0..<length curr_idx]])
            else (new_idx, valiue_idx, unroll_idx)))"

fun select_k_loop :: "nat list \<Rightarrow> nat list \<Rightarrow> real list \<Rightarrow> nat list \<Rightarrow> nat \<Rightarrow> nat list
    \<Rightarrow> (nat list \<times> nat list) list \<times> nat list list \<times> nat list list
    \<Rightarrow> error + ((nat list \<times> nat list) list \<times> nat list list \<times> nat list list)" where
  "select_k_loop row_idx col_idx values k_per_row row_idx_start [] acc = Inr acc"
| "select_k_loop row_idx col_idx values k_per_row row_idx_start (i # rows) acc =
     (if length k_per_row \<le> i then Inl IndexError
      else select_k_loop row_idx col_idx values k_per_row
             (fst (select_k_row row_idx col_idx values k_per_row row_idx_start i acc)) rows
             (snd (select_k_row row_idx col_idx values k_per_row row_idx_start i acc)))"

definition select_k_idx_cpu :: "nat list \<Rightarrow> nat list \<Rightarrow> real list \<Rightarrow> nat list \<Rightarrow> nat
    \<Rightarrow> error + ((nat list \<times> nat list) list \<times> nat list list \<times> nat list list)" where
  "select_k_idx_cpu row_idx col_idx values k_per_row n =
     (let sort_idx = argsort row_idx;
          row_idx' = map (\<lambda>s. row_idx ! s) sort_idx;
          col_idx' = map (\<lambda>s. col_idx ! s) sort_idx
      in select_k_loop row_idx' col_idx' values k_per_row 0 [0..<n] ([], [], []))"

text \<open>
  \<^verbatim>\<open>_sparse_top_k\<close> on CPU tensors with \<^verbatim>\<open>return_sparse=False\<close>: the pair of the \<open>[n, k]\<close>
  tensors \<open>values\<close> (initially 0) and \<open>indices\<close> (initially \<open>-1\<close>). The CUDA branch calls a
  compiled kernel and is not modelled. \<^verbatim>\<open>np.hstack\<close> of an empty list raises. The
  assignments go to the rows \<open>i < n\<close> and the slots below \<open>k_per_row[i] \<le> k\<close>.
\<close>

definition sparse_top_k :: "nat list \<Rightarrow> nat list \<Rightarrow> real list \<Rightarrow> nat \<Rightarrow> nat
    \<Rightarrow> error + (mat \<times> int list list)" where
  "sparse_top_k A_rows A_cols A_values n k =
     (let n_edges_per_row = scatter_sum (map (\<lambda>v. 1) A_values) A_rows;
          k_per_row = map (\<lambda>e. nat \<lfloor>min e (real k)\<rfloor>) n_edges_per_row
      in case select_k_idx_cpu A_rows A_cols A_values k_per_row n of
           Inl e \<Rightarrow> Inl e
         | Inr (new_idx, value_idx, unroll_idx) \<Rightarrow>
             if new_idx = [] then Inl ValueError
             else
               (let new_idx0 = concat (map fst new_idx);
                    new_idx1 = concat (map snd new_idx);
                    value_idx = concat value_idx;
                    unroll_idx = concat unroll_idx;
                    values = replicate n (replicate k 0);
                    indices = replicate n (replicate k (- 1));
                    values = index_put values new_idx0 unroll_idx (map (\<lambda>v. A_values ! v) value_idx);
                    indices = index_put indices new_idx0 unroll_idx (map int new_idx1)
                in Inr (values, indices)))"

section \<open>The robust aggregations\<close>

text \<open>
  The aggregations take the adjacency \<open>A\<close> and the feature matrix \<open>x\<close> of shape \<open>[n, d]\<close> and
  return the new embeddings of shape \<open>[n, d]\<close>. The model is written for an adjacency of
  shape \<open>[n, n]\<close>; on other shapes the tensor library raises or broadcasts, which is not
  modelled. The tensors are on the CPU.

  \<open>weighted_distance_sums\<close> is the part that \<^verbatim>\<open>weighted_medoid\<close> and \<^verbatim>\<open>soft_weighted_medoid\<close>
  share: \<open>distances[i, c, j] = A[i, j] * l2[c, j]\<close>; the rows \<open>distances[i, c, :]\<close> with
  \<open>A[i, c] = 0\<close> are set to the largest float; the sum over \<open>j\<close>; sums that are not finite
  are set to the largest float. Over the reals an entry of \<open>l2\<close> is never an infinity or
  NaN, so the products \<open>0 * inf\<close> of the floats do not occur here: they are modelled in
  \<open>weighted_distance_sums_ieee\<close> below, and the theorems on the results of \<^verbatim>\<open>weighted_medoid\<close>
  and \<^verbatim>\<open>soft_weighted_medoid\<close> are stated there.
\<close>

definition weighted_distance_sums :: "mat \<Rightarrow> mat \<Rightarrow> mat" where
  "weighted_distance_sums A_cpu_dense l2_cpu =
     map (\<lambda>A_i. map (\<lambda>(a_ic, l2_c).
                      replace_nonfinite
                        (sum_list (if a_ic = 0 then map (\<lambda>d. flt_max) (map2 (*) A_i l2_c)
                                   else map2 (*) A_i l2_c)))
                  (zip A_i l2_cpu))
       A_cpu_dense"

definition weighted_medoid :: "adjacency \<Rightarrow> mat \<Rightarrow> mat" where
  "weighted_medoid A x =
     (let l2 = distance_matrix x 100;
          A_cpu_dense = to_dense A;
          distances = weighted_distance_sums A_cpu_dense l2;
          row_sum = map sum_list A_cpu_dense
      in map2 (\<lambda>s dist_i. map ((*) s) (x ! argmin dist_i)) row_sum distances)"

definition soft_weighted_medoid :: "adjacency \<Rightarrow> mat \<Rightarrow> real \<Rightarrow> mat" where
  "soft_weighted_medoid A x temperature =
     (let D = ncols x;
          l2 = distance_matrix x 100;
          A_cpu_dense = to_dense A;
          distances = weighted_distance_sums A_cpu_dense l2;
          row_sum = map sum_list A_cpu_dense
      in map2 (\<lambda>s dist_i. map ((*) s) (row_matmul (softmax (map (\<lambda>d. - d / temperature) dist_i)) x D))
           row_sum distances)"

text \<open>
  \<^verbatim>\<open>torch.topk(A_dense, k=k, dim=1)\<close> on one row: the \<open>k\<close> largest entries, largest first, with
  their column indices. The model takes the stable order; the library leaves the order of
  equal entries open.
\<close>

definition topk :: "real list \<Rightarrow> nat \<Rightarrow> (real \<times> nat) list" where
  "topk row k = take k (sort_key (\<lambda>(v, j). - v) (zip row [0..<length row]))"

text \<open>
  The distances within the top-k neighbourhood of one row, of the dense implementations:
  entry \<open>a\<close> is the sum over \<open>b\<close> of \<open>topk_a[b] * l2[topk_a_idx[b], topk_a_idx[a]]\<close>.
\<close>

definition topk_distances :: "mat \<Rightarrow> (real \<times> nat) list \<Rightarrow> real list" where
  "topk_distances l2 tk =
     map (\<lambda>(wa, ia). sum_list (map (\<lambda>(wb, ib). wb * l2 ! ib ! ia) tk)) tk"

definition weighted_medoid_k_neighborhood :: "adjacency \<Rightarrow> mat \<Rightarrow> nat \<Rightarrow> mat" where
  "weighted_medoid_k_neighborhood A x k =
     (let N = length x in
      if k > N then weighted_medoid A x
      else
        (let l2 = distance_matrix x 100;
             A_dense = to_dense A;
             row_sum = map sum_list A_dense
         in map2 (\<lambda>s A_i.
               let tk = topk A_i k;
                   distances_k = topk_distances l2 tk;
                   distances_k = map2 (\<lambda>(w, j) d. if w = 0 then flt_max else d) tk distances_k;
                   distances_k = map replace_nonfinite distances_k
               in map ((*) s) (x ! snd (tk ! argmin distances_k)))
             row_sum A_dense))"

text \<open>
  \<^verbatim>\<open>dense_cpu_soft_weighted_medoid_k_neighborhood\<close>. The softmax values are written into a
  row of zeros at the columns of the top-k entries; with the weight correction they are
  multiplied by the top-k weights there, and the row is divided by its sum plus \<open>eps\<close>.
  Where that sum plus \<open>eps\<close> is zero the code divides by zero and returns NaN, which is no
  real number: the theorems on this function are stated where it is positive.
\<close>

definition dense_cpu_soft_weighted_medoid_k_neighborhood ::
    "adjacency \<Rightarrow> mat \<Rightarrow> nat \<Rightarrow> real \<Rightarrow> bool \<Rightarrow> real \<Rightarrow> mat" where
  "dense_cpu_soft_weighted_medoid_k_neighborhood A x k temperature with_weight_correction eps =
     (let d = ncols x;
          A_dense = to_dense A;
          l2 = distance_matrix x 100;
          row_sum = map sum_list A_dense
      in map2 (\<lambda>s A_i.
            let tk = topk A_i k;
                topk_a = map fst tk;
                topk_a_idx = map snd tk;
                distances_k = map replace_nonfinite (topk_distances l2 tk);
                topk_weights = index_put_row (replicate (length A_i) 0) topk_a_idx
                                 (softmax (map (\<lambda>d. - d / temperature) distances_k));
                topk_weights =
                  (if with_weight_correction
                   then (let tw = index_put_row topk_weights topk_a_idx
                                    (map2 (*) (map (\<lambda>j. topk_weights ! j) topk_a_idx) topk_a)
                         in map (\<lambda>w. w / (sum_list tw + eps)) tw)
                   else topk_weights)
            in map ((*) s) (row_matmul topk_weights x d))
          row_sum A_dense)"

text \<open>
  \<^verbatim>\<open>torch_sparse.spmm(index, value, m, n, matrix)\<close>: row \<open>i\<close> of the result is the sum, over
  the entries of row \<open>i\<close>, of the entry's value times the row of \<open>matrix\<close> at its column.
\<close>

definition spmm :: "nat list \<Rightarrow> nat list \<Rightarrow> real list \<Rightarrow> nat \<Rightarrow> mat \<Rightarrow> mat" where
  "spmm rows cols vals m matrix =
     map (\<lambda>i. map (\<lambda>c. sum_list (map (\<lambda>(r, j, v). v * matrix ! j ! c)
                                   (filter (\<lambda>(r, j, v). r = i) (zip rows (zip cols vals)))))
                [0..<ncols matrix])
       [0..<m]"

text \<open>
  The sparse branch of \<^verbatim>\<open>soft_weighted_medoid_k_neighborhood\<close>. When a row has no entry, a
  placeholder entry \<open>(row, 0, 0)\<close> is appended for every such row, after the entries of
  \<^verbatim>\<open>A.coo()\<close>.
\<close>

definition add_missing_rows :: "nat \<Rightarrow> nat list \<times> nat list \<times> real list \<Rightarrow> nat list \<times> nat list \<times> real list" where
  "add_missing_rows n A_coo =
     (case A_coo of (A_rows, A_cols, A_values) \<Rightarrow>
        if length (remdups A_rows) \<noteq> n
        then (let all_row_idx_once = [0..<n];
                  missing_row_idx = filter (\<lambda>i. \<not> List.member A_rows i) all_row_idx_once;
                  missing_cols_idx = map (\<lambda>i. 0) missing_row_idx;
                  missing_values = map (\<lambda>i. 0) missing_row_idx
              in (A_rows @ missing_row_idx, A_cols @ missing_cols_idx, A_values @ missing_values))
        else (A_rows, A_cols, A_values))"

definition sparse_soft_weighted_medoid_k_neighborhood ::
    "adjacency \<Rightarrow> mat \<Rightarrow> nat \<Rightarrow> real \<Rightarrow> bool \<Rightarrow> real \<Rightarrow> error + mat" where
  "sparse_soft_weighted_medoid_k_neighborhood A x k temperature with_weight_correction eps =
     (let n = length x in
      case add_missing_rows n (coo A) of (A_rows, A_cols, A_values) \<Rightarrow>
      case sparse_top_k A_rows A_cols A_values n k of
        Inl e \<Rightarrow> Inl e
      | Inr (top_k_weights, top_k_idx) \<Rightarrow>
          (case partial_distance_matrix x top_k_idx of
             Inl e \<Rightarrow> Inl e
           | Inr distances \<Rightarrow>
               (let distances_top_k = map2 (\<lambda>w D_i. map (\<lambda>D_ia. sum_list (map2 (*) w D_ia)) D_i)
                                        top_k_weights distances;
                    distances_top_k = map2 (map2 (\<lambda>j d. if j = - 1 then flt_max else d))
                                        top_k_idx distances_top_k;
                    distances_top_k = map (map replace_nonfinite) distances_top_k;
                    reliable_adj_values =
                      map (\<lambda>d_i. softmax (map (\<lambda>d. - d / temperature) d_i)) distances_top_k;
                    reliable_adj_values =
                      (if with_weight_correction
                       then map (\<lambda>r_i. map (\<lambda>r. r / (sum_list r_i + eps)) r_i)
                              (map2 (map2 (*)) reliable_adj_values top_k_weights)
                       else reliable_adj_values);
                    top_k_inv_idx_row = concat (map (replicate k) [0..<n]);
                    top_k_inv_idx_column = concat top_k_idx;
                    top_k_mask = map (\<lambda>j. j \<noteq> - 1) top_k_inv_idx_column;
                    reliable_adj_index0 = select_mask top_k_mask top_k_inv_idx_row;
                    reliable_adj_index1 = map nat (select_mask top_k_mask top_k_inv_idx_column);
                    reliable_adj_values = select_mask top_k_mask (concat reliable_adj_values);
                    a_row_sum = scatter_sum A_values A_rows
                in Inr (map2 (\<lambda>s row. map ((*) s) row) a_row_sum
                          (spmm reliable_adj_index0 reliable_adj_index1 reliable_adj_values n x)))))"

text \<open>
  \<^verbatim>\<open>soft_weighted_medoid_k_neighborhood\<close> on CPU tensors: the check of \<open>k\<close> against \<open>n\<close>, then
  the dense implementation below the threshold (called without \<open>eps\<close>, so with its own
  default \<open>1e-10\<close>) and the sparse branch otherwise.
\<close>

definition soft_weighted_medoid_k_neighborhood ::
    "adjacency \<Rightarrow> mat \<Rightarrow> nat \<Rightarrow> real \<Rightarrow> bool \<Rightarrow> nat \<Rightarrow> real \<Rightarrow> error + mat" where
  "soft_weighted_medoid_k_neighborhood A x k temperature with_weight_correction
       threshold_for_dense_if_cpu eps =
     (let n = length x in
      if k > n then
        (if with_weight_correction then Inl NotImplementedError
         else Inr (soft_weighted_medoid A x temperature))
      else if n < threshold_for_dense_if_cpu then
        Inr (dense_cpu_soft_weighted_medoid_k_neighborhood A x k temperature with_weight_correction
               (1 / 10 ^ 10))
      else sparse_soft_weighted_medoid_k_neighborhood A x k temperature with_weight_correction eps)"

text \<open>
  \<^verbatim>\<open>weighted_dimwise_median_cpu\<close>. For the feature dimension \<open>c\<close>, \<open>sort_index\<close> is the order
  \<open>index_x[:, c]\<close> of the nodes by their value in that dimension (\<^verbatim>\<open>torch.sort(x, dim=0)\<close>;
  the model takes the stable order), \<open>cum_sorted_weights\<close> the cumulative sums of the weights of row \<open>i\<close> in
  that order, \<open>weight_sum_per_node\<close> their maximum and \<open>median_element\<close> the number of
  cumulative sums below half of it.
\<close>

fun cumsum_from :: "real \<Rightarrow> real list \<Rightarrow> real list" where
  "cumsum_from acc [] = []"
| "cumsum_from acc (w # ws) = (acc + w) # cumsum_from (acc + w) ws"

definition cumsum :: "real list \<Rightarrow> real list" where
  "cumsum ws = cumsum_from 0 ws"

definition sort_index :: "mat \<Rightarrow> nat \<Rightarrow> nat list" where
  "sort_index x c = argsort (map (\<lambda>row. row ! c) x)"

definition cum_sorted_weights :: "real list \<Rightarrow> mat \<Rightarrow> nat \<Rightarrow> real list" where
  "cum_sorted_weights A_i x c = cumsum (map (\<lambda>j. A_i ! j) (sort_index x c))"

definition weighted_dimwise_median_cpu :: "adjacency \<Rightarrow> mat \<Rightarrow> mat" where
  "weighted_dimwise_median_cpu A x =
     (let D = ncols x;
          A_cpu_dense = to_dense A
      in map (\<lambda>A_i. map (\<lambda>c.
                 let index_x = sort_index x c;
                     weight_sum_per_node = Max (set (cum_sorted_weights A_i x c));
                     median_element = length (filter (\<lambda>w. w < weight_sum_per_node / 2)
                                                (cum_sorted_weights A_i x c))
                 in weight_sum_per_node * x ! (index_x ! median_element) ! c)
               [0..<D])
           A_cpu_dense)"

section \<open>Infinities and NaN\<close>

text \<open>
  The real numbers have no NaN, so the model above cannot say that a result is NaN. For
  \<^verbatim>\<open>soft_weighted_medoid\<close> the arithmetic is modelled a second time with the special values
  of IEEE arithmetic: a float is a real number, an infinity or NaN; a result beyond the
  largest float overflows to an infinity; \<open>inf - inf\<close>, \<open>0 * inf\<close>, \<open>0 / 0\<close> and \<open>inf / inf\<close>
  are NaN, and NaN propagates. Rounding and underflow are still not modelled.
\<close>

datatype fl = Fin real | PInf | NInf | NaN

definition overflow :: "real \<Rightarrow> fl" where
  "overflow r = (if flt_max < r then PInf else if r < - flt_max then NInf else Fin r)"

fun fl_neg :: "fl \<Rightarrow> fl" where
  "fl_neg (Fin a) = Fin (- a)"
| "fl_neg PInf = NInf"
| "fl_neg NInf = PInf"
| "fl_neg NaN = NaN"

fun fl_add :: "fl \<Rightarrow> fl \<Rightarrow> fl" where
  "fl_add (Fin a) (Fin b) = overflow (a + b)"
| "fl_add NaN b = NaN"
| "fl_add a NaN = NaN"
| "fl_add PInf NInf = NaN"
| "fl_add NInf PInf = NaN"
| "fl_add PInf b = PInf"
| "fl_add a PInf = PInf"
| "fl_add NInf b = NInf"
| "fl_add a NInf = NInf"

definition fl_sub :: "fl \<Rightarrow> fl \<Rightarrow> fl" where
  "fl_sub a b = fl_add a (fl_neg b)"

text \<open>An infinity with the sign of \<open>s\<close> times the sign of the real number \<open>a\<close>.\<close>

definition signed_inf :: "bool \<Rightarrow> real \<Rightarrow> fl" where
  "signed_inf positive a = (if a = 0 then NaN else if (0 < a) = positive then PInf else NInf)"

fun fl_mul :: "fl \<Rightarrow> fl \<Rightarrow> fl" where
  "fl_mul (Fin a) (Fin b) = overflow (a * b)"
| "fl_mul NaN b = NaN"
| "fl_mul a NaN = NaN"
| "fl_mul PInf (Fin b) = signed_inf True b"
| "fl_mul NInf (Fin b) = signed_inf False b"
| "fl_mul (Fin a) PInf = signed_inf True a"
| "fl_mul (Fin a) NInf = signed_inf False a"
| "fl_mul PInf PInf = PInf"
| "fl_mul NInf NInf = PInf"
| "fl_mul PInf NInf = NInf"
| "fl_mul NInf PInf = NInf"

text \<open>Division; the sign of a zero divisor is not modelled, it is taken as positive.\<close>

fun fl_div :: "fl \<Rightarrow> fl \<Rightarrow> fl" where
  "fl_div (Fin a) (Fin b) =
     (if b = 0 then (if a = 0 then NaN else if 0 < a then PInf else NInf) else overflow (a / b))"
| "fl_div NaN b = NaN"
| "fl_div a NaN = NaN"
| "fl_div (Fin a) PInf = Fin 0"
| "fl_div (Fin a) NInf = Fin 0"
| "fl_div PInf (Fin b) = (if 0 \<le> b then PInf else NInf)"
| "fl_div NInf (Fin b) = (if 0 \<le> b then NInf else PInf)"
| "fl_div PInf b = NaN"
| "fl_div NInf b = NaN"

fun fl_abs :: "fl \<Rightarrow> fl" where
  "fl_abs (Fin a) = Fin \<bar>a\<bar>"
| "fl_abs PInf = PInf"
| "fl_abs NInf = PInf"
| "fl_abs NaN = NaN"

fun fl_sqrt :: "fl \<Rightarrow> fl" where
  "fl_sqrt (Fin a) = (if a < 0 then NaN else Fin (sqrt a))"
| "fl_sqrt PInf = PInf"
| "fl_sqrt NInf = NaN"
| "fl_sqrt NaN = NaN"

fun fl_exp :: "fl \<Rightarrow> fl" where
  "fl_exp (Fin a) = overflow (exp a)"
| "fl_exp PInf = PInf"
| "fl_exp NInf = Fin 0"
| "fl_exp NaN = NaN"

fun fl_isfinite :: "fl \<Rightarrow> bool" where
  "fl_isfinite (Fin a) = True"
| "fl_isfinite a = False"

definition fl_sum :: "fl list \<Rightarrow> fl" where
  "fl_sum v = foldl fl_add (Fin 0) v"

definition fl_dot :: "fl list \<Rightarrow> fl list \<Rightarrow> fl" where
  "fl_dot u v = fl_sum (map2 fl_mul u v)"

definition distance_matrix_ieee :: "fl list list \<Rightarrow> real \<Rightarrow> fl list list" where
  "distance_matrix_ieee x eps_factor =
     (let x_norm = map (\<lambda>row. fl_sum (map (\<lambda>a. fl_mul a a) row)) x;
          squared = map (\<lambda>(ni, u). map (\<lambda>(nj, v). fl_sub (fl_add ni nj) (fl_mul (Fin 2) (fl_dot u v)))
                                       (zip x_norm x))
                      (zip x_norm x);
          eps = eps_factor * flt_eps
      in map (map (\<lambda>s. fl_sqrt (fl_add (fl_abs s) (Fin eps)))) squared)"

definition weighted_distance_sums_ieee :: "fl list list \<Rightarrow> fl list list \<Rightarrow> fl list list" where
  "weighted_distance_sums_ieee A_cpu_dense l2_cpu =
     map (\<lambda>A_i. map (\<lambda>(a_ic, l2_c).
                      let s = fl_sum (if a_ic = Fin 0 then map (\<lambda>d. Fin flt_max) (map2 fl_mul A_i l2_c)
                                      else map2 fl_mul A_i l2_c)
                      in if fl_isfinite s then s else Fin flt_max)
                  (zip A_i l2_cpu))
       A_cpu_dense"

definition softmax_ieee :: "fl list \<Rightarrow> fl list" where
  "softmax_ieee v = map (\<lambda>a. fl_div (fl_exp a) (fl_sum (map fl_exp v))) v"

definition row_matmul_ieee :: "fl list \<Rightarrow> fl list list \<Rightarrow> nat \<Rightarrow> fl list" where
  "row_matmul_ieee w x d = map (\<lambda>c. fl_sum (map2 (\<lambda>a row. fl_mul a (row ! c)) w x)) [0..<d]"

text \<open>\<^verbatim>\<open>soft_weighted_medoid\<close> on a dense adjacency, in this arithmetic.\<close>

definition soft_weighted_medoid_ieee :: "fl list list \<Rightarrow> fl list list \<Rightarrow> fl \<Rightarrow> fl list list" where
  "soft_weighted_medoid_ieee A x temperature =
     (let D = ncols x;
          l2 = distance_matrix_ieee x 100;
          A_cpu_dense = A;
          distances = weighted_distance_sums_ieee A_cpu_dense l2;
          row_sum = map fl_sum A_cpu_dense
      in map2 (\<lambda>s dist_i. map (fl_mul s)
                 (row_matmul_ieee (softmax_ieee (map (\<lambda>d. fl_div (fl_neg d) temperature) dist_i)) x D))
           row_sum distances)"




text \<open>
  \<^verbatim>\<open>partial_distance_matrix\<close> in this arithmetic. \<open>sparse_distances_ieee\<close> is the line
  \<^verbatim>\<open>sparse_distances = torch.norm(x[distance_matrix_idx // n] - x[distance_matrix_idx % n], dim=1)\<close>:
  one norm for every element of \<open>distance_matrix_idx\<close>, of the difference of the two rows,
  with the squares and their sum in floating point.
\<close>

definition vsub_ieee :: "fl list \<Rightarrow> fl list \<Rightarrow> fl list" where
  "vsub_ieee u v = map2 fl_sub u v"

definition norm2_ieee :: "fl list \<Rightarrow> fl" where
  "norm2_ieee v = fl_sqrt (fl_sum (map (\<lambda>a. fl_mul a a) v))"

definition sparse_distances_ieee :: "fl list list \<Rightarrow> int list list \<Rightarrow> error + fl list" where
  "sparse_distances_ieee x partial_idx =
     (let n = length partial_idx
      in sequence (map (\<lambda>u.
                 case tensor_row x (u div int n) of
                   Inl e \<Rightarrow> Inl e
                 | Inr xa \<Rightarrow>
                     (case tensor_row x (u mod int n) of
                        Inl e \<Rightarrow> Inl e
                      | Inr xb \<Rightarrow> Inr (norm2_ieee (vsub_ieee xa xb))))
               (distance_matrix_idx partial_idx)))"

definition partial_distance_matrix_ieee :: "fl list list \<Rightarrow> int list list \<Rightarrow> error + fl list list list" where
  "partial_distance_matrix_ieee x partial_idx =
     (let n = length partial_idx;
          k = ncols partial_idx;
          missing_mask = pd_missing_mask partial_idx;
          linear_index = pd_linear_index partial_idx;
          unique_reverse_index = unique_inverse (distance_matrix_idx partial_idx) linear_index
      in case sparse_distances_ieee x partial_idx of
           Inl e \<Rightarrow> Inl e
         | Inr sparse_distances \<Rightarrow>
             (let out = replicate (n * k * k) (Fin 0);
                  out = masked_assign out missing_mask (map (\<lambda>t. sparse_distances ! t) unique_reverse_index)
              in Inr (view3 n k k out)))"

section \<open>Properties of the chunking driver\<close>

text \<open>
  The blocks of the Chunker: \<open>n_chunks - 1\<close> blocks of \<open>chunk_size\<close> rows and a last block
  from \<open>(n_chunks - 1) * chunk_size\<close> to \<open>n\<close>. When the last block does not start beyond
  \<open>n\<close> the blocks tile \<open>[0, n)\<close>, and then the chunked call returns what the unchunked call
  returns, with and without gradient tracking, for an aggregation whose result on a row
  block of the adjacency is the corresponding block of rows of its result on the whole
  adjacency.
\<close>

lemma regular_blocks_concat:
  "concat (map (\<lambda>c. [c * cs..<(c + 1) * cs]) [0..<m]) = [0..<m * cs]"
proof (induction m)
  case 0 then show ?case by simp
next
  case (Suc m)
  have "[0..<m * cs + cs] = [0..<m * cs] @ [m * cs..<m * cs + cs]"
    by (rule upt_add_eq_append) simp
  then show ?case using Suc by (simp add: add.commute)
qed

lemma chunker_blocks:
  assumes "0 < n_chunks"
  shows "\<exists>c. Chunker n n_chunks rg ds = Inr c
       \<and> zip (ch_lower c) (ch_upper c)
           = map (\<lambda>c. (c * nat \<lceil>real n / real n_chunks\<rceil>, (c + 1) * nat \<lceil>real n / real n_chunks\<rceil>))
                 [0..<n_chunks - 1]
             @ [((n_chunks - 1) * nat \<lceil>real n / real n_chunks\<rceil>, n)]"
proof -
  define cs where "cs = nat \<lceil>real n / real n_chunks\<rceil>"
  obtain m where m: "n_chunks = Suc m" using assms by (cases n_chunks) auto
  have up: "(map (\<lambda>chunk. (chunk + 1) * cs) [0..<Suc m])[m := n]
          = map (\<lambda>chunk. (chunk + 1) * cs) [0..<m] @ [n]"
    by (simp add: list_update_append)
  have lo: "map (\<lambda>chunk. chunk * cs) [0..<Suc m] = map (\<lambda>chunk. chunk * cs) [0..<m] @ [m * cs]"
    by simp
  have z: "zip (map (\<lambda>chunk. chunk * cs) [0..<Suc m]) ((map (\<lambda>chunk. (chunk + 1) * cs) [0..<Suc m])[m := n])
         = map (\<lambda>c. (c * cs, (c + 1) * cs)) [0..<m] @ [(m * cs, n)]"
    unfolding up lo by (simp add: zip_map_map zip_same_conv_map del: upt_Suc)
  have C: "Chunker n n_chunks rg ds =
      Inr \<lparr>ch_n = n, ch_n_chunks = n_chunks, ch_requires_grad = rg, ch_do_synchronize = ds,
           ch_chunk_size = cs, ch_lower = map (\<lambda>chunk. chunk * cs) [0..<n_chunks],
           ch_upper = (map (\<lambda>chunk. (chunk + 1) * cs) [0..<n_chunks])[n_chunks - 1 := n]\<rparr>"
    using assms by (simp add: Chunker_def Let_def cs_def)
  have "zip (map (\<lambda>chunk. chunk * cs) [0..<n_chunks])
            ((map (\<lambda>chunk. (chunk + 1) * cs) [0..<n_chunks])[n_chunks - 1 := n])
      = map (\<lambda>c. (c * cs, (c + 1) * cs)) [0..<n_chunks - 1] @ [((n_chunks - 1) * cs, n)]"
    using z unfolding m by simp
  then show ?thesis
    unfolding C cs_def[symmetric] by simp
qed

lemma chunker_blocks_tile:
  assumes "0 < n_chunks" "(n_chunks - 1) * nat \<lceil>real n / real n_chunks\<rceil> \<le> n"
  shows "\<exists>c. Chunker n n_chunks rg ds = Inr c
       \<and> concat (map (\<lambda>(lower, upper). [lower..<upper]) (zip (ch_lower c) (ch_upper c))) = [0..<n]"
proof -
  define cs where "cs = nat \<lceil>real n / real n_chunks\<rceil>"
  obtain c where c: "Chunker n n_chunks rg ds = Inr c"
    and z: "zip (ch_lower c) (ch_upper c)
           = map (\<lambda>c. (c * cs, (c + 1) * cs)) [0..<n_chunks - 1] @ [((n_chunks - 1) * cs, n)]"
    using chunker_blocks[OF assms(1), of n rg ds] unfolding cs_def by blast
  have "concat (map (\<lambda>(lower, upper). [lower..<upper]) (zip (ch_lower c) (ch_upper c)))
      = concat (map (\<lambda>c. [c * cs..<(c + 1) * cs]) [0..<n_chunks - 1]) @ [(n_chunks - 1) * cs..<n]"
    unfolding z by (simp add: comp_def)
  also have "\<dots> = [0..<(n_chunks - 1) * cs] @ [(n_chunks - 1) * cs..<n]"
    by (simp only: regular_blocks_concat)
  also have "\<dots> = [0..<n]"
    using assms(2) upt_add_eq_append[of 0 "(n_chunks - 1) * cs" "n - (n_chunks - 1) * cs"]
    by (simp add: cs_def)
  finally show ?thesis using c by blast
qed

lemma take_drop_as_upt: "upper \<le> length out \<Longrightarrow> take (upper - lower) (drop lower out) = map ((!) out) [lower..<upper]"
  by (rule nth_equalityI) simp_all

lemma chunk_loop_blocks:
  assumes "\<And>lower upper. (lower, upper) \<in> set bs \<Longrightarrow> get_run lower upper inputs = Inr (f lower upper)"
  shows "chunk_loop get_run rg inputs bs = Inr (concat (map (\<lambda>(lower, upper). f lower upper) bs))"
  using assms by (induction bs) (auto simp: checkpoint_def)

lemma chunked_equals_unchunked:
  assumes nc: "0 < n_chunks"
    and fit: "(n_chunks - 1) * nat \<lceil>real (length x) / real n_chunks\<rceil> \<le> length x"
    and full: "aggregation_function adj_t x = Inr out" "length out = length x"
    and rowwise: "\<And>lower upper. lower \<le> upper \<Longrightarrow> upper \<le> length x \<Longrightarrow>
        \<exists>block. row_slice adj_t lower upper = Inr block
              \<and> aggregation_function block x = Inr (take (upper - lower) (drop lower out))"
  shows "chunked_message_and_aggregate row_slice weights_require_grad adj_t x n_chunks aggregation_function
       = Inr out"
proof (cases weights_require_grad)
  case False
  then show ?thesis using full by (simp add: chunked_message_and_aggregate_def)
next
  case True
  define n where "n = length x"
  define cs where "cs = nat \<lceil>real n / real n_chunks\<rceil>"
  define run where "run = (\<lambda>lower upper (adj, x).
               case row_slice adj lower upper of
                 Inl e \<Rightarrow> Inl e
               | Inr block \<Rightarrow> aggregation_function block x)"
  obtain c where c: "Chunker n n_chunks True False = Inr c"
    and z: "zip (ch_lower c) (ch_upper c)
           = map (\<lambda>c. (c * cs, (c + 1) * cs)) [0..<n_chunks - 1] @ [((n_chunks - 1) * cs, n)]"
    using chunker_blocks[OF nc, of n True False] unfolding cs_def by blast
  obtain c' where c': "Chunker n n_chunks True False = Inr c'"
    and tile: "concat (map (\<lambda>(lower, upper). [lower..<upper]) (zip (ch_lower c') (ch_upper c'))) = [0..<n]"
    using chunker_blocks_tile[OF nc, of n True False] fit unfolding n_def by blast
  have cc: "c' = c" using c c' by simp
  have rg: "ch_requires_grad c = True"
    using c nc by (auto simp: Chunker_def Let_def)
  have bounds: "lower \<le> upper \<and> upper \<le> n" if "(lower, upper) \<in> set (zip (ch_lower c) (ch_upper c))"
    for lower upper
  proof -
    from that[unfolded z] consider j where "j < n_chunks - 1" "lower = j * cs" "upper = (j + 1) * cs"
      | "lower = (n_chunks - 1) * cs" "upper = n" by auto
    then show ?thesis
    proof cases
      case 1
      then have "(j + 1) * cs \<le> (n_chunks - 1) * cs" by (intro mult_le_mono1) simp
      then show ?thesis using 1 fit by (simp add: cs_def n_def)
    next
      case 2
      then show ?thesis using fit by (simp add: cs_def n_def)
    qed
  qed
  have runs: "run lower upper (adj_t, x) = Inr (take (upper - lower) (drop lower out))"
    if "(lower, upper) \<in> set (zip (ch_lower c) (ch_upper c))" for lower upper
    using rowwise[of lower upper] bounds[OF that] by (auto simp: run_def n_def)
  have "chunk c run (adj_t, x)
      = Inr (concat (map (\<lambda>(lower, upper). take (upper - lower) (drop lower out)) (zip (ch_lower c) (ch_upper c))))"
    unfolding chunk_def by (rule chunk_loop_blocks) (rule runs)
  also have "concat (map (\<lambda>(lower, upper). take (upper - lower) (drop lower out)) (zip (ch_lower c) (ch_upper c)))
           = concat (map (\<lambda>(lower, upper). map ((!) out) [lower..<upper]) (zip (ch_lower c) (ch_upper c)))"
    using bounds full(2)
    by (intro arg_cong[where f = concat] map_cong refl) (auto simp: take_drop_as_upt n_def)
  also have "\<dots> = map ((!) out) (concat (map (\<lambda>(lower, upper). [lower..<upper]) (zip (ch_lower c) (ch_upper c))))"
    by (simp add: map_concat comp_def case_prod_unfold)
  also have "\<dots> = out"
  proof -
    have "map ((!) out) [0..<length out] = out" by (rule map_nth)
    then show ?thesis using tile full(2) unfolding cc by (simp add: n_def)
  qed
  finally have "chunk c run (adj_t, x) = Inr out" .
  then show ?thesis
    using True c by (simp add: chunked_message_and_aggregate_def Let_def n_def[symmetric] run_def[symmetric])
qed

text \<open>
  C5. The claim is that for every \<open>n \<ge> 1\<close> and every \<open>n_chunks \<ge> 1\<close> the blocks of the
  Chunker are contiguous row blocks of \<open>[0, n)\<close> of size \<open>ceil(n / n_chunks)\<close>, the last one
  absorbing the remainder. For \<open>n = 5\<close> and \<open>n_chunks = 4\<close> the block size is 2 and the
  blocks that \<^verbatim>\<open>Chunker.chunk\<close> iterates over are \<open>[0,2)\<close>, \<open>[2,4)\<close>, \<open>[4,6)\<close> and \<open>[6,5)\<close>:
  the third block ends beyond the last row, and the last block starts beyond it and ends
  before it starts. Only the last upper bound is set to \<open>n\<close>.
\<close>

theorem chunker_blocks_5_rows_4_chunks:
  "Chunker 5 4 True False =
     Inr \<lparr>ch_n = 5, ch_n_chunks = 4, ch_requires_grad = True, ch_do_synchronize = False,
          ch_chunk_size = 2, ch_lower = [0, 2, 4, 6], ch_upper = [2, 4, 6, 5]\<rparr>"
  by (simp add: Chunker_def Let_def upt_rec)

section \<open>Properties of the distance primitive\<close>

lemma sum_squares_nonneg: "0 \<le> sum_list (map (\<lambda>a. a ^ 2) (v :: vec))"
  by (rule sum_list_nonneg) auto

lemma norm2_nonneg: "0 \<le> norm2 v"
  by (simp add: norm2_def sum_squares_nonneg)

lemma norm2_self: "norm2 (vsub u u) = 0"
  by (induction u) (simp_all add: norm2_def vsub_def)

lemma squared_expansion:
  "length u = length v \<Longrightarrow>
   sum_list (map (\<lambda>a. a ^ 2) u) + sum_list (map (\<lambda>a. a ^ 2) v) - 2 * dot u v
     = sum_list (map (\<lambda>a. a ^ 2) (vsub u v))"
  unfolding dot_def vsub_def
  by (induction u v rule: list_induct2) (simp_all add: power2_diff algebra_simps)

lemma distance_matrix_nth:
  assumes "i < length x" "j < length x"
  shows "distance_matrix x eps_factor ! i ! j =
    sqrt (\<bar>sum_list (map (\<lambda>a. a ^ 2) (x ! i)) + sum_list (map (\<lambda>a. a ^ 2) (x ! j)) - 2 * dot (x ! i) (x ! j)\<bar>
           + eps_factor * flt_eps)"
  using assms by (simp add: distance_matrix_def Let_def)

lemma distance_matrix_entry:
  assumes "is_matrix n d x" "i < n" "j < n"
  shows "distance_matrix x eps_factor ! i ! j = sqrt ((norm2 (vsub (x ! i) (x ! j))) ^ 2 + eps_factor * flt_eps)"
proof -
  have len: "length (x ! i) = length (x ! j)"
    using assms by (simp add: is_matrix_def list_all_length)
  show ?thesis
    using assms sum_squares_nonneg[of "vsub (x ! i) (x ! j)"] by (simp add: distance_matrix_nth is_matrix_def squared_expansion[OF len] norm2_def)
qed

text \<open>
  Over the reals: every entry of \<^verbatim>\<open>_distance_matrix(x)\<close> is strictly positive; the entry of a
  node with itself is \<open>sqrt(eps_factor * eps)\<close>, not 0; the entry of two nodes is the square
  root of their squared Euclidean distance plus \<open>eps_factor * eps\<close>, which is strictly larger
  than their Euclidean distance.
\<close>

lemma distance_matrix_entry_properties:
  assumes "is_matrix n d x" "i < n" "j < n" "0 < eps_factor"
  shows "0 < distance_matrix x eps_factor ! i ! j
       \<and> distance_matrix x eps_factor ! i ! i = sqrt (eps_factor * flt_eps)
       \<and> distance_matrix x eps_factor ! i ! j = sqrt ((norm2 (vsub (x ! i) (x ! j))) ^ 2 + eps_factor * flt_eps)
       \<and> norm2 (vsub (x ! i) (x ! j)) < distance_matrix x eps_factor ! i ! j"
proof -
  let ?e = "eps_factor * flt_eps"
  let ?t = "norm2 (vsub (x ! i) (x ! j))"
  have e: "0 < ?e" using assms(4) by (simp add: flt_eps_def)
  have t: "0 \<le> ?t" by (rule norm2_nonneg)
  have ij: "distance_matrix x eps_factor ! i ! j = sqrt (?t ^ 2 + ?e)"
    by (rule distance_matrix_entry[OF assms(1-3)])
  have self: "norm2 (vsub (x ! i) (x ! i)) = 0" by (rule norm2_self)
  have ii: "distance_matrix x eps_factor ! i ! i = sqrt ?e"
    using distance_matrix_entry[OF assms(1,2,2)] self by simp
  have "?t = sqrt (?t ^ 2)" using t by simp
  also have "\<dots> < sqrt (?t ^ 2 + ?e)" using e by (simp del: real_sqrt_abs)
  finally have lt: "?t < distance_matrix x eps_factor ! i ! j" using ij by simp
  with t have "0 < distance_matrix x eps_factor ! i ! j" by linarith
  with ii ij lt show ?thesis by blast
qed

text \<open>
  With the infinities and NaN: when the entries of \<open>x\<close> are bounded by \<open>b\<close> and
  \<open>4 * d * b\<^sup>2 + eps_factor * eps\<close> does not exceed the largest float, no intermediate result
  of \<^verbatim>\<open>_distance_matrix\<close> overflows and its entries are the real numbers of the model above.
\<close>

lemma overflow_in_range: "\<bar>r\<bar> \<le> flt_max \<Longrightarrow> overflow r = Fin r"
  by (auto simp: overflow_def)

lemma foldl_fl_add_in_range:
  "\<bar>s\<bar> + sum_list (map abs v) \<le> flt_max \<Longrightarrow> foldl fl_add (Fin s) (map Fin v) = Fin (s + sum_list v)"
proof (induction v arbitrary: s)
  case Nil then show ?case by simp
next
  case (Cons a v)
  have nn: "0 \<le> sum_list (map abs v)" by (rule sum_list_nonneg) auto
  have "\<bar>s + a\<bar> \<le> \<bar>s\<bar> + \<bar>a\<bar>" by simp
  then have b: "\<bar>s + a\<bar> + sum_list (map abs v) \<le> flt_max" using Cons.prems by simp
  then have "\<bar>s + a\<bar> \<le> flt_max" using nn by linarith
  then have "fl_add (Fin s) (Fin a) = Fin (s + a)" by (simp add: overflow_in_range)
  then show ?case using Cons.IH[OF b] by (simp add: add.assoc)
qed

lemma fl_sum_in_range:
  "sum_list (map abs v) \<le> flt_max \<Longrightarrow> fl_sum (map Fin v) = Fin (sum_list v)"
  using foldl_fl_add_in_range[of 0 v] by (simp add: fl_sum_def)

lemma sum_list_abs_bound:
  "list_all (\<lambda>a. \<bar>a\<bar> \<le> c) v \<Longrightarrow> sum_list (map abs v) \<le> real (length v) * c"
  by (induction v) (simp_all add: algebra_simps)

lemma abs_sum_list_le: "\<bar>sum_list v\<bar> \<le> sum_list (map abs (v :: real list))"
  by (induction v) auto

lemma map2_fl_mul_in_range:
  "list_all (\<lambda>p. \<bar>fst p * snd p\<bar> \<le> flt_max) (zip u v)
   \<Longrightarrow> map2 fl_mul (map Fin u) (map Fin v) = map Fin (map2 (*) u v)"
proof (induction u arbitrary: v)
  case Nil then show ?case by simp
next
  case (Cons a u)
  then show ?case by (cases v) (simp_all add: overflow_in_range)
qed

lemma elem_le_sum_abs: "a \<in> set v \<Longrightarrow> \<bar>a\<bar> \<le> sum_list (map abs (v :: real list))"
proof (induction v)
  case Nil then show ?case by simp
next
  case (Cons c v)
  have nn: "0 \<le> sum_list (map abs v)" by (rule sum_list_nonneg) auto
  show ?case using Cons nn by auto
qed

lemma products_bound:
  assumes "list_all (\<lambda>a. \<bar>a\<bar> \<le> b) u" "list_all (\<lambda>a. \<bar>a\<bar> \<le> b) v" "length u = d" "length v = d"
  shows "sum_list (map abs (map2 (*) u v)) \<le> real d * (b * b)"
proof -
  have "list_all (\<lambda>p. \<bar>p\<bar> \<le> b * b) (map2 (*) u v)"
    using assms(1,2)
  proof (induction u arbitrary: v)
    case Nil then show ?case by simp
  next
    case (Cons a u)
    show ?case
    proof (cases v)
      case Nil then show ?thesis by simp
    next
      case (Cons c v')
      have "\<bar>a\<bar> \<le> b" "\<bar>c\<bar> \<le> b" using Cons.prems Cons by simp_all
      then have "\<bar>a\<bar> * \<bar>c\<bar> \<le> b * b" by (intro mult_mono) simp_all
      then have "\<bar>a * c\<bar> \<le> b * b" by (simp add: abs_mult)
      then show ?thesis using Cons Cons.prems Cons.IH[of v'] by simp
    qed
  qed
  then have "sum_list (map abs (map2 (*) u v)) \<le> real (length (map2 (*) u v)) * (b * b)"
    by (rule sum_list_abs_bound)
  then show ?thesis using assms(3,4) by simp
qed

lemma fl_dot_in_range:
  assumes "list_all (\<lambda>a. \<bar>a\<bar> \<le> b) u" "list_all (\<lambda>a. \<bar>a\<bar> \<le> b) v" "length u = d" "length v = d"
    and "real d * (b * b) \<le> flt_max"
  shows "fl_dot (map Fin u) (map Fin v) = Fin (dot u v)" and "\<bar>dot u v\<bar> \<le> real d * (b * b)"
proof -
  have s: "sum_list (map abs (map2 (*) u v)) \<le> real d * (b * b)"
    by (rule products_bound[OF assms(1-4)])
  have each: "list_all (\<lambda>p. \<bar>fst p * snd p\<bar> \<le> flt_max) (zip u v)"
  proof -
    have "\<bar>fst p * snd p\<bar> \<le> flt_max" if "p \<in> set (zip u v)" for p
    proof -
      have "fst p * snd p \<in> set (map2 (*) u v)" using that by (auto simp: case_prod_unfold)
      from elem_le_sum_abs[OF this] s assms(5) show ?thesis by linarith
    qed
    then show ?thesis by (simp add: list_all_iff)
  qed
  show "fl_dot (map Fin u) (map Fin v) = Fin (dot u v)"
    unfolding fl_dot_def dot_def map2_fl_mul_in_range[OF each]
    by (rule fl_sum_in_range) (use s assms(5) in linarith)
  show "\<bar>dot u v\<bar> \<le> real d * (b * b)"
    unfolding dot_def using abs_sum_list_le[of "map2 (*) u v"] s by linarith
qed

lemma fl_norm_in_range:
  assumes "list_all (\<lambda>a. \<bar>a\<bar> \<le> b) u" "length u = d" "real d * (b * b) \<le> flt_max"
  shows "fl_sum (map (\<lambda>a. fl_mul a a) (map Fin u)) = Fin (sum_list (map (\<lambda>a. a ^ 2) u))"
    and "\<bar>sum_list (map (\<lambda>a. a ^ 2) u)\<bar> \<le> real d * (b * b)"
proof -
  have m: "map (\<lambda>a. fl_mul a a) (map Fin u) = map2 fl_mul (map Fin u) (map Fin u)"
    by (induction u) simp_all
  have r: "map (\<lambda>a. a ^ 2) u = map2 (*) u u"
    by (induction u) (simp_all add: power2_eq_square)
  show "fl_sum (map (\<lambda>a. fl_mul a a) (map Fin u)) = Fin (sum_list (map (\<lambda>a. a ^ 2) u))"
    unfolding m r using fl_dot_in_range(1)[OF assms(1,1,2,2,3)] by (simp add: fl_dot_def dot_def)
  show "\<bar>sum_list (map (\<lambda>a. a ^ 2) u)\<bar> \<le> real d * (b * b)"
    unfolding r using fl_dot_in_range(2)[OF assms(1,1,2,2,3)] by (simp add: dot_def)
qed

lemma distance_matrix_ieee_nth:
  assumes "i < length X" "j < length X"
  shows "distance_matrix_ieee X eps_factor ! i ! j =
     fl_sqrt (fl_add (fl_abs (fl_sub (fl_add (fl_sum (map (\<lambda>a. fl_mul a a) (X ! i)))
                                               (fl_sum (map (\<lambda>a. fl_mul a a) (X ! j))))
                                       (fl_mul (Fin 2) (fl_dot (X ! i) (X ! j)))))
                     (Fin (eps_factor * flt_eps)))"
  using assms by (simp add: distance_matrix_ieee_def Let_def)

lemma distance_matrix_ieee_in_range:
  assumes x: "is_matrix n d x" and i: "i < n" and j: "j < n" and e: "0 < eps_factor"
    and b: "list_all (list_all (\<lambda>a. \<bar>a\<bar> \<le> b)) x"
    and r: "4 * (real d * (b * b)) + eps_factor * flt_eps \<le> flt_max"
  shows "distance_matrix_ieee (map (map Fin) x) eps_factor ! i ! j = Fin (distance_matrix x eps_factor ! i ! j)"
proof -
  define B where "B = real d * (b * b)"
  define E where "E = eps_factor * flt_eps"
  have E: "0 < E" using e by (simp add: E_def flt_eps_def)
  have B0: "0 \<le> B" by (simp add: B_def)
  have B4: "4 * B + E \<le> flt_max" using r by (simp add: B_def E_def)
  have B: "B \<le> flt_max" "2 * B \<le> flt_max" "4 * B \<le> flt_max" "4 * B + E \<le> flt_max"
    using B4 E B0 by linarith+
  have lx: "length x = n" using x by (simp add: is_matrix_def)
  have li: "length (x ! i) = d" and lj: "length (x ! j) = d"
    using x i j by (simp_all add: is_matrix_def list_all_length)
  have bi: "list_all (\<lambda>a. \<bar>a\<bar> \<le> b) (x ! i)" and bj: "list_all (\<lambda>a. \<bar>a\<bar> \<le> b) (x ! j)"
    using b i j lx by (simp_all add: list_all_length)
  define ni where "ni = sum_list (map (\<lambda>a. a ^ 2) (x ! i))"
  define nj where "nj = sum_list (map (\<lambda>a. a ^ 2) (x ! j))"
  define p where "p = dot (x ! i) (x ! j)"
  have Ni: "fl_sum (map (\<lambda>a. fl_mul a a) (map Fin (x ! i))) = Fin ni" and ni: "\<bar>ni\<bar> \<le> B"
    using fl_norm_in_range[OF bi li] B(1) by (simp_all add: ni_def B_def)
  have Nj: "fl_sum (map (\<lambda>a. fl_mul a a) (map Fin (x ! j))) = Fin nj" and nj: "\<bar>nj\<bar> \<le> B"
    using fl_norm_in_range[OF bj lj] B(1) by (simp_all add: nj_def B_def)
  have P: "fl_dot (map Fin (x ! i)) (map Fin (x ! j)) = Fin p" and p: "\<bar>p\<bar> \<le> B"
    using fl_dot_in_range[OF bi bj li lj] B(1) by (simp_all add: p_def B_def)
  have a1: "fl_add (Fin ni) (Fin nj) = Fin (ni + nj)"
    using ni nj B(2) by (intro trans[OF fl_add.simps(1) overflow_in_range]) linarith
  have a2: "fl_mul (Fin 2) (Fin p) = Fin (2 * p)"
    using p B(2) by (intro trans[OF fl_mul.simps(1) overflow_in_range]) (simp add: abs_mult)
  have a3: "fl_sub (Fin (ni + nj)) (Fin (2 * p)) = Fin (ni + nj - 2 * p)"
  proof -
    have "\<bar>ni + nj + - (2 * p)\<bar> \<le> flt_max" using ni nj p B(3) by linarith
    then show ?thesis by (simp add: fl_sub_def overflow_in_range)
  qed
  have a4: "fl_add (Fin \<bar>ni + nj - 2 * p\<bar>) (Fin E) = Fin (\<bar>ni + nj - 2 * p\<bar> + E)"
  proof -
    have "\<bar>\<bar>ni + nj - 2 * p\<bar> + E\<bar> \<le> flt_max" using ni nj p B(4) E by linarith
    then show ?thesis by (simp add: overflow_in_range)
  qed
  have nn: "\<not> \<bar>ni + nj - 2 * p\<bar> + E < 0" using E by linarith
  have Xi: "map (map Fin) x ! i = map Fin (x ! i)" and Xj: "map (map Fin) x ! j = map Fin (x ! j)"
    using i j lx by simp_all
  have l: "i < length (map (map Fin) x)" "j < length (map (map Fin) x)" using i j lx by simp_all
  have "distance_matrix_ieee (map (map Fin) x) eps_factor ! i ! j
      = fl_sqrt (fl_add (fl_abs (fl_sub (fl_add (Fin ni) (Fin nj)) (fl_mul (Fin 2) (Fin p)))) (Fin E))"
    unfolding distance_matrix_ieee_nth[OF l] Xi Xj Ni Nj P E_def ..
  also have "\<dots> = Fin (sqrt (\<bar>ni + nj - 2 * p\<bar> + E))"
    unfolding a1 a2 a3 fl_abs.simps a4 using nn by simp
  also have "sqrt (\<bar>ni + nj - 2 * p\<bar> + E) = distance_matrix x eps_factor ! i ! j"
    using i j lx by (simp add: distance_matrix_nth ni_def nj_def p_def E_def)
  finally show ?thesis .
qed

text \<open>
  C10. For a feature matrix \<open>x\<close> of shape \<open>[n, d]\<close> whose entries are bounded by \<open>b\<close>, with
  \<open>4 * d * b\<^sup>2 + eps_factor * eps\<close> not above the largest float, and a positive \<open>eps_factor\<close>:
  every entry of \<^verbatim>\<open>_distance_matrix(x)\<close> is a finite number, not an infinity and not NaN, and
  strictly positive; the entry of a node with itself is \<open>sqrt(eps_factor * eps)\<close>, not 0; the
  entry of two nodes is the square root of their squared Euclidean distance plus
  \<open>eps_factor * eps\<close>, which is strictly larger than their Euclidean distance, so that no
  entry is the true distance.
\<close>

theorem distance_matrix_finite_positive:
  assumes "is_matrix n d x" "i < n" "j < n" "0 < eps_factor"
    and "list_all (list_all (\<lambda>a. \<bar>a\<bar> \<le> b)) x"
    and "4 * (real d * (b * b)) + eps_factor * flt_eps \<le> flt_max"
  shows "distance_matrix_ieee (map (map Fin) x) eps_factor ! i ! j = Fin (distance_matrix x eps_factor ! i ! j)
       \<and> 0 < distance_matrix x eps_factor ! i ! j
       \<and> distance_matrix_ieee (map (map Fin) x) eps_factor ! i ! i = Fin (sqrt (eps_factor * flt_eps))
       \<and> distance_matrix x eps_factor ! i ! j = sqrt ((norm2 (vsub (x ! i) (x ! j))) ^ 2 + eps_factor * flt_eps)
       \<and> norm2 (vsub (x ! i) (x ! j)) < distance_matrix x eps_factor ! i ! j"
proof -
  have ij: "distance_matrix_ieee (map (map Fin) x) eps_factor ! i ! j = Fin (distance_matrix x eps_factor ! i ! j)"
    by (rule distance_matrix_ieee_in_range[OF assms(1,2,3,4,5,6)])
  have ii: "distance_matrix_ieee (map (map Fin) x) eps_factor ! i ! i = Fin (distance_matrix x eps_factor ! i ! i)"
    by (rule distance_matrix_ieee_in_range[OF assms(1,2,2,4,5,6)])
  note p = distance_matrix_entry_properties[OF assms(1-4)]
  have ii': "distance_matrix_ieee (map (map Fin) x) eps_factor ! i ! i = Fin (sqrt (eps_factor * flt_eps))"
    unfolding ii p[THEN conjunct2, THEN conjunct1] ..
  from p ij ii' show ?thesis by blast
qed

theorem distance_matrix_finite_positive_witness:
  "is_matrix 2 2 [[0, 0], [3, 4 :: real]] \<and> (0 :: nat) < 2 \<and> (1 :: nat) < 2 \<and> (0 :: real) < 100
   \<and> list_all (list_all (\<lambda>a. \<bar>a\<bar> \<le> 4)) [[0, 0], [3, 4 :: real]]
   \<and> 4 * (real 2 * (4 * 4)) + 100 * flt_eps \<le> flt_max
   \<and> distance_matrix_ieee (map (map Fin) [[0, 0], [3, 4]]) 100 ! 0 ! 1 = Fin (distance_matrix [[0, 0], [3, 4]] 100 ! 0 ! 1)
   \<and> 0 < distance_matrix [[0, 0], [3, 4]] 100 ! 0 ! 1
   \<and> distance_matrix_ieee (map (map Fin) [[0, 0], [3, 4]]) 100 ! 0 ! 0 = Fin (sqrt (100 * flt_eps))
   \<and> distance_matrix [[0, 0], [3, 4]] 100 ! 0 ! 1
       = sqrt ((norm2 (vsub ([[0, 0], [3, 4]] ! 0) ([[0, 0], [3, 4]] ! 1))) ^ 2 + 100 * flt_eps)
   \<and> norm2 (vsub ([[0, 0], [3, 4]] ! 0) ([[0, 0], [3, 4]] ! 1)) < distance_matrix [[0, 0], [3, 4]] 100 ! 0 ! 1"
proof -
  have h1: "is_matrix 2 2 [[0, 0], [3, 4 :: real]]" by (simp add: is_matrix_def)
  have h2: "(0 :: nat) < 2" and h3: "(1 :: nat) < 2" and h4: "(0 :: real) < 100" by simp_all
  have h5: "list_all (list_all (\<lambda>a. \<bar>a\<bar> \<le> 4)) [[0, 0], [3, 4 :: real]]" by simp
  have h6: "4 * (real 2 * (4 * 4)) + 100 * flt_eps \<le> flt_max" by (simp add: flt_eps_def flt_max_def)
  from distance_matrix_finite_positive[OF h1 h2 h3 h4 h5 h6] h1 h2 h3 h4 h5 h6 show ?thesis by blast
qed

text \<open>
  C10 is stated for every finite feature matrix. The feature \<open>2\<^sup>1\<^sup>2\<^sup>7\<close> is a float, its square
  is not: the squared norm and the product overflow to \<open>inf\<close>, \<open>inf + inf - 2 * inf\<close> is NaN,
  and the only entry of the distance matrix is NaN.
\<close>

theorem distance_matrix_nan_on_overflow:
  "(2 :: real) ^ 127 \<le> flt_max \<and> distance_matrix_ieee [[Fin (2 ^ 127)]] 100 = [[NaN]]"
proof -
  define c :: real where "c = 2 ^ 127"
  have f: "c \<le> flt_max" by (simp add: c_def flt_max_def)
  have "flt_max < c * c" by (simp add: c_def flt_max_def)
  then have o: "fl_mul (Fin c) (Fin c) = PInf" by (simp add: overflow_def)
  have "distance_matrix_ieee [[Fin c]] 100 = [[NaN]]"
    unfolding distance_matrix_ieee_def Let_def fl_dot_def fl_sum_def
    by (simp add: o fl_sub_def signed_inf_def del: fl_mul.simps(1))
  with f show ?thesis unfolding c_def by blast
qed

section \<open>Properties of the partial distance matrix\<close>

text \<open>
  Proof-side notions: the pairs \<open>(partial_idx[i, b], partial_idx[i, a])\<close> in the order of
  the flat tensors, the test that a pair holds no sentinel, the linear index of an ordered
  pair, and the distance that is computed for a linear index.
\<close>

lemma select_mask_map: "select_mask (map P ps) (map h ps) = map h (filter P ps)"
  by (induction ps) (simp_all add: select_mask_def)

lemma masked_assign_filter:
  "masked_assign (map g ps) (map P ps) (map f (filter P ps)) = map (\<lambda>p. if P p then f p else g p) ps"
  by (induction ps) simp_all

lemma zip_concat_blocks:
  "list_all2 (\<lambda>xs ys. length xs = length ys) xss yss \<Longrightarrow>
   zip (concat xss) (concat yss) = concat (map2 zip xss yss)"
  by (induction xss yss rule: list_all2_induct) simp_all

lemma take_drop_concat_regular:
  "list_all (\<lambda>xs. length xs = k) xss \<Longrightarrow> j < length xss \<Longrightarrow>
   take k (drop (j * k) (concat xss)) = xss ! j"
proof (induction xss arbitrary: j)
  case Nil then show ?case by simp
next
  case (Cons xs xss)
  show ?case
  proof (cases j)
    case 0 with Cons.prems show ?thesis by simp
  next
    case (Suc j')
    with Cons.prems have "take k (drop (j' * k) (concat xss)) = xss ! j'"
      by (intro Cons.IH) simp_all
    with Suc Cons.prems show ?thesis by (simp add: add.commute)
  qed
qed

lemma view3_concat:
  assumes "length xsss = n" "list_all (\<lambda>xss. length xss = k1 \<and> list_all (\<lambda>xs. length xs = k2) xss) xsss"
  shows "view3 n k1 k2 (concat (map concat xsss)) = xsss"
proof -
  let ?L = "concat xsss"
  have flat: "concat (map concat xsss) = concat ?L" by (induction xsss) simp_all
  have reg2: "list_all (\<lambda>xs. length xs = k2) ?L"
    using assms(2) by (induction xsss) simp_all
  have reg1: "list_all (\<lambda>xss. length xss = k1) xsss"
    using assms(2) by (induction xsss) simp_all
  have lenL: "length ?L = n * k1"
    using assms(1) reg1 by (induction xsss arbitrary: n) auto
  have blk: "take k1 (drop (i * k1) ?L) = xsss ! i" if "i < n" for i
    using take_drop_concat_regular[OF reg1] that assms(1) by simp
  have ent: "take k2 (drop ((i * k1 + a) * k2) (concat ?L)) = xsss ! i ! a" if "i < n" "a < k1" for i a
  proof -
    have lt: "i * k1 + a < length ?L"
    proof -
      have "i * k1 + a < i * k1 + k1" using that by simp
      also have "\<dots> = Suc i * k1" by simp
      also have "\<dots> \<le> n * k1" using that by (intro mult_le_mono1) simp
      finally show ?thesis using lenL by simp
    qed
    from lt have "take k2 (drop ((i * k1 + a) * k2) (concat ?L)) = ?L ! (i * k1 + a)"
      by (rule take_drop_concat_regular[OF reg2])
    also have "\<dots> = (take k1 (drop (i * k1) ?L)) ! a"
      using that lt by (simp add: nth_drop)
    also have "\<dots> = xsss ! i ! a" using blk that by simp
    finally show ?thesis .
  qed
  have leni: "length (xsss ! i) = k1" if "i < n" for i
    using reg1 that assms(1) by (simp add: list_all_length)
  show ?thesis
    unfolding view3_def flat
    by (rule nth_equalityI) (auto simp: assms(1) ent leni intro!: nth_equalityI)
qed

definition pd_pairs :: "int list list \<Rightarrow> (int \<times> int) list" where
  "pd_pairs partial_idx = concat (map (\<lambda>row. concat (map (\<lambda>a. map (\<lambda>b. (b, a)) row) row)) partial_idx)"

lemma ncols_regular:
  "is_matrix n k idx \<Longrightarrow> list_all (\<lambda>row. length row = ncols idx) idx"
  by (cases idx) (auto simp: is_matrix_def ncols_def list_all_iff)

lemma idx_row_pairs:
  "list_all (\<lambda>row. length row = K) rows \<Longrightarrow>
   concat (map (\<lambda>row. concat (replicate K row)) rows)
     = map fst (concat (map (\<lambda>row. concat (map (\<lambda>a. map (\<lambda>b. (b, a)) row) row)) rows))"
proof (induction rows)
  case Nil then show ?case by simp
next
  case (Cons row rows)
  have "replicate (length row) row = map (\<lambda>a. row) row" by (simp add: map_replicate_const)
  with Cons show ?case by (simp add: map_concat comp_def)
qed

lemma idx_column_pairs:
  "list_all (\<lambda>row. length row = K) rows \<Longrightarrow>
   concat (map (\<lambda>row. concat (map (replicate K) row)) rows)
     = map snd (concat (map (\<lambda>row. concat (map (\<lambda>a. map (\<lambda>b. (b, a)) row) row)) rows))"
proof (induction rows)
  case Nil then show ?case by simp
next
  case (Cons row rows)
  then show ?case by (simp add: map_concat comp_def map_replicate_const)
qed

lemma pd_idx_row_eq: "is_matrix n k idx \<Longrightarrow> pd_idx_row idx = map fst (pd_pairs idx)"
  unfolding pd_idx_row_def pd_pairs_def by (rule idx_row_pairs[OF ncols_regular])

lemma pd_idx_column_eq: "is_matrix n k idx \<Longrightarrow> pd_idx_column idx = map snd (pd_pairs idx)"
  unfolding pd_idx_column_def pd_pairs_def by (rule idx_column_pairs[OF ncols_regular])

definition pd_valid :: "int \<times> int \<Rightarrow> bool" where
  "pd_valid p \<longleftrightarrow> fst p \<noteq> - 1 \<and> snd p \<noteq> - 1"

definition pd_lin :: "nat \<Rightarrow> int \<times> int \<Rightarrow> int" where
  "pd_lin n p = (if snd p < fst p then snd p else fst p) * int n + (if snd p < fst p then fst p else snd p)"

lemma map2_fst_snd: "map2 f (map fst ps) (map snd ps) = map (\<lambda>p. f (fst p) (snd p)) ps"
  by (induction ps) (simp_all add: case_prod_beta)

lemma map2_map_same: "map2 h (map f xs) (map g xs) = map (\<lambda>x. h (f x) (g x)) xs"
  by (induction xs) simp_all

lemma takeWhile_stops: "\<not> P v \<Longrightarrow> v \<in> set us \<Longrightarrow> length (takeWhile P us) < length us"
  by (induction us) auto

lemma zip_map_self: "zip (map f xs) xs = map (\<lambda>x. (f x, x)) xs"
  by (induction xs) simp_all

lemma pd_missing_mask_eq: "is_matrix n k idx \<Longrightarrow> pd_missing_mask idx = map pd_valid (pd_pairs idx)"
  by (simp add: pd_missing_mask_def pd_idx_row_eq pd_idx_column_eq map2_fst_snd pd_valid_def)

lemma pd_linear_index_eq:
  assumes "is_matrix n k idx"
  shows "pd_linear_index idx = map (pd_lin n) (filter pd_valid (pd_pairs idx))"
proof -
  have n: "length idx = n" using assms by (simp add: is_matrix_def)
  show ?thesis
    unfolding pd_linear_index_def Let_def pd_missing_mask_eq[OF assms]
      pd_idx_row_eq[OF assms] pd_idx_column_eq[OF assms] select_mask_map map2_fst_snd
      zip_map_fst_snd zip_map_self n
    by (simp add: pd_lin_def map2_map_same case_prod_beta)
qed

lemma sequence_all_Inr:
  "list_all (\<lambda>u. F u = Inr (G u)) us \<Longrightarrow> sequence (map F us) = Inr (map G us)"
  by (induction us) simp_all

lemma unique_inverse_nth:
  assumes "v \<in> set us"
  shows "us ! length (takeWhile (\<lambda>u. u \<noteq> v) us) = v"
proof -
  have "length (takeWhile (\<lambda>u. u \<noteq> v) us) < length us"
    using assms by (intro takeWhile_stops[of _ v]) auto
  from nth_length_takeWhile[OF this] show ?thesis by simp
qed

lemma gather_unique_inverse:
  "map (\<lambda>t. map G (unique lin) ! t) (unique_inverse (unique lin) lin) = map G lin"
proof -
  have s: "set (unique lin) = set lin" by (simp add: unique_def)
  have "map G (unique lin) ! length (takeWhile (\<lambda>u. u \<noteq> v) (unique lin)) = G v" if "v \<in> set lin" for v
  proof -
    have v: "v \<in> set (unique lin)" using that s by simp
    then have "length (takeWhile (\<lambda>u. u \<noteq> v) (unique lin)) < length (unique lin)"
      by (intro takeWhile_stops[of _ v]) auto
    then show ?thesis using unique_inverse_nth[OF v] by simp
  qed
  then show ?thesis by (simp add: unique_inverse_def)
qed

lemma norm2_vsub_commute: "norm2 (vsub u v) = norm2 (vsub v u)"
proof -
  have "map (\<lambda>a. a ^ 2) (vsub u v) = map (\<lambda>a. a ^ 2) (vsub v u)"
    unfolding vsub_def
  proof (induction u arbitrary: v)
    case Nil then show ?case by simp
  next
    case (Cons a u)
    then show ?case by (cases v) (simp_all add: power2_commute)
  qed
  then show ?thesis by (simp add: norm2_def)
qed

definition idx_in_range :: "nat \<Rightarrow> int list list \<Rightarrow> bool" where
  "idx_in_range n partial_idx \<longleftrightarrow> list_all (list_all (\<lambda>j. - 1 \<le> j \<and> j < int n)) partial_idx"

lemma pd_pairs_set:
  "p \<in> set (pd_pairs idx) \<Longrightarrow> \<exists>row \<in> set idx. fst p \<in> set row \<and> snd p \<in> set row"
  by (auto simp: pd_pairs_def)

lemma pd_pairs_bounds:
  assumes "idx_in_range n idx" "p \<in> set (pd_pairs idx)" "pd_valid p"
  shows "0 \<le> fst p \<and> fst p < int n \<and> 0 \<le> snd p \<and> snd p < int n"
proof -
  from pd_pairs_set[OF assms(2)] obtain row where r: "row \<in> set idx" "fst p \<in> set row" "snd p \<in> set row"
    by blast
  with assms(1) have "- 1 \<le> fst p \<and> fst p < int n \<and> - 1 \<le> snd p \<and> snd p < int n"
    by (auto simp: idx_in_range_def list_all_iff)
  with assms(3) show ?thesis by (auto simp: pd_valid_def)
qed

lemma pd_lin_div_mod:
  assumes "0 \<le> fst p" "fst p < int n" "0 \<le> snd p" "snd p < int n"
  shows "pd_lin n p div int n = min (fst p) (snd p)" "pd_lin n p mod int n = max (fst p) (snd p)"
  using assms by (auto simp: pd_lin_def min_def max_def div_pos_pos_trivial)

definition pd_dist :: "mat \<Rightarrow> nat \<Rightarrow> int \<Rightarrow> real" where
  "pd_dist x n u = norm2 (vsub (x ! nat (u div int n)) (x ! nat (u mod int n)))"

lemma pd_pairs_length:
  "is_matrix n k idx \<Longrightarrow> length (pd_pairs idx) = n * k * k"
proof -
  assume a: "is_matrix n k idx"
  have "list_all (\<lambda>row. length row = k) rows \<Longrightarrow>
        length (concat (map (\<lambda>row. concat (map (\<lambda>a. map (\<lambda>b. (b, a)) row) row)) rows)) = length rows * k * k" for rows :: "int list list"
    by (induction rows) (simp_all add: length_concat comp_def sum_list_triv algebra_simps)
  with a show ?thesis by (simp add: is_matrix_def pd_pairs_def)
qed

lemma partial_distance_matrix_flat:
  assumes m: "is_matrix n k idx" and r: "idx_in_range n idx" and x: "length x = n"
  shows "partial_distance_matrix x idx =
     Inr (view3 n k k (map (\<lambda>p. if pd_valid p then pd_dist x n (pd_lin n p) else 0) (pd_pairs idx)))"
proof -
  let ?ps = "pd_pairs idx"
  let ?lin = "map (pd_lin n) (filter pd_valid ?ps)"
  let ?F = "\<lambda>u. case tensor_row x (u div int n) of
                   Inl e \<Rightarrow> Inl e
                 | Inr xa \<Rightarrow>
                     (case tensor_row x (u mod int n) of
                        Inl e \<Rightarrow> Inl e
                      | Inr xb \<Rightarrow> Inr (norm2 (vsub xa xb)))"
  have n: "length idx = n" using m by (simp add: is_matrix_def)
  have k: "ncols idx = k \<or> idx = []" using m by (cases idx) (auto simp: is_matrix_def ncols_def)
  have F: "?F u = Inr (pd_dist x n u)" if "u \<in> set ?lin" for u
  proof -
    from that obtain p where p: "p \<in> set ?ps" "pd_valid p" "u = pd_lin n p" by auto
    from pd_pairs_bounds[OF r p(1,2)] have b: "0 \<le> fst p" "fst p < int n" "0 \<le> snd p" "snd p < int n"
      by auto
    have "0 \<le> u div int n" "u div int n < int n" "0 \<le> u mod int n" "u mod int n < int n"
      using pd_lin_div_mod[OF b] b p(3) by (auto simp: min_def max_def)
    then show ?thesis by (simp add: tensor_row_def x pd_dist_def)
  qed
  have "list_all (\<lambda>u. ?F u = Inr (pd_dist x n u)) (unique ?lin)"
    using F by (simp add: list_all_iff unique_def)
  from sequence_all_Inr[OF this]
  have seq: "sequence (map ?F (unique ?lin)) = Inr (map (pd_dist x n) (unique ?lin))" .
  have rep: "replicate (n * k * k) (0::real) = map (\<lambda>p. 0) ?ps"
    using pd_pairs_length[OF m] by (simp add: map_replicate_const)
  have nk: "n * ncols idx * ncols idx = n * k * k" "view3 n (ncols idx) (ncols idx) = (view3 n k k :: real list \<Rightarrow> _)"
    using k n by (auto simp: view3_def fun_eq_iff)
  show ?thesis
    unfolding partial_distance_matrix_def distance_matrix_idx_def Let_def pd_linear_index_eq[OF m]
      pd_missing_mask_eq[OF m] n seq
    apply (simp only: sum.case gather_unique_inverse nk rep)
    apply (simp only: map_map comp_def)
    apply (simp only: masked_assign_filter[where g="\<lambda>p. 0" and f="\<lambda>p. pd_dist x n (pd_lin n p)" and P=pd_valid])
    done
qed

definition is_tensor3 :: "nat \<Rightarrow> nat \<Rightarrow> nat \<Rightarrow> 'a list list list \<Rightarrow> bool" where
  "is_tensor3 n k1 k2 t \<longleftrightarrow> length t = n \<and> list_all (is_matrix k1 k2) t"

lemma partial_distance_matrix_nested:
  assumes m: "is_matrix n k idx" and r: "idx_in_range n idx" and x: "length x = n"
  shows "partial_distance_matrix x idx =
     Inr (map (\<lambda>row. map (\<lambda>a. map (\<lambda>b. if pd_valid (b, a) then pd_dist x n (pd_lin n (b, a)) else 0) row) row) idx)"
proof -
  let ?H = "\<lambda>p. if pd_valid p then pd_dist x n (pd_lin n p) else 0"
  let ?N = "map (\<lambda>row. map (\<lambda>a. map (\<lambda>b. ?H (b, a)) row) row) idx"
  have flat: "map ?H (pd_pairs idx) = concat (map concat ?N)"
    by (simp add: pd_pairs_def map_concat comp_def)
  have shape: "list_all (\<lambda>xss. length xss = k \<and> list_all (\<lambda>xs. length xs = k) xss) ?N"
    using m by (auto simp: is_matrix_def list_all_iff)
  have len: "length ?N = n" using m by (simp add: is_matrix_def)
  show ?thesis
    unfolding partial_distance_matrix_flat[OF m r x] flat view3_concat[OF len shape] ..
qed

lemma pd_entry:
  assumes "0 \<le> a" "a < int n" "0 \<le> b" "b < int n"
  shows "pd_dist x n (pd_lin n (b, a)) = norm2 (vsub (x ! nat a) (x ! nat b))"
proof -
  have "pd_lin n (b, a) div int n = min b a" "pd_lin n (b, a) mod int n = max b a"
    using pd_lin_div_mod[of "(b, a)" n] assms by simp_all
  then show ?thesis
    using norm2_vsub_commute[of "x ! nat a" "x ! nat b"]
    by (auto simp: pd_dist_def min_def max_def)
qed

lemma unordered_pairs_distinct:
  assumes m: "is_matrix n k idx" and r: "idx_in_range n idx"
  shows "distinct (map (\<lambda>u. {u div int n, u mod int n}) (distance_matrix_idx idx))"
proof -
  let ?lin = "map (pd_lin n) (filter pd_valid (pd_pairs idx))"
  have d: "distinct (distance_matrix_idx idx)"
    by (simp add: distance_matrix_idx_def unique_def)
  have s: "set (distance_matrix_idx idx) = set ?lin"
    by (simp add: distance_matrix_idx_def unique_def pd_linear_index_eq[OF m])
  have ord: "0 \<le> u div int n \<and> u div int n \<le> u mod int n \<and> u mod int n < int n \<and> 0 < n"
    if "u \<in> set ?lin" for u
  proof -
    from that obtain p where p: "p \<in> set (pd_pairs idx)" "pd_valid p" "u = pd_lin n p" by auto
    from pd_pairs_bounds[OF r p(1,2)] have b: "0 \<le> fst p" "fst p < int n" "0 \<le> snd p" "snd p < int n"
      by auto
    show ?thesis using pd_lin_div_mod[OF b] b p(3) by (auto simp: min_def max_def)
  qed
  have "inj_on (\<lambda>u. {u div int n, u mod int n}) (set ?lin)"
  proof (rule inj_onI)
    fix u v assume u: "u \<in> set ?lin" and v: "v \<in> set ?lin"
      and e: "{u div int n, u mod int n} = {v div int n, v mod int n}"
    from e ord[OF u] ord[OF v] have "u div int n = v div int n \<and> u mod int n = v mod int n"
      by (auto simp: doubleton_eq_iff)
    then have "u div int n * int n + u mod int n = v div int n * int n + v mod int n" by simp
    then show "u = v" by simp
  qed
  with d s show ?thesis by (simp add: distinct_map)
qed

text \<open>
  Over the real numbers: for a feature matrix \<open>x\<close> of shape \<open>[n, d]\<close> and an index matrix of
  shape \<open>[n, k]\<close> with entries in \<open>{-1, 0, ..., n-1}\<close>, \<^verbatim>\<open>partial_distance_matrix\<close> does not fail
  and returns a tensor of shape \<open>[n, k, k]\<close> with the entries 0 at a sentinel and the Euclidean
  distance of the two rows otherwise.
\<close>

lemma partial_distance_matrix_real_entries:
  assumes "is_matrix n k partial_idx" and "idx_in_range n partial_idx" and "is_matrix n d x"
  shows "\<exists>T. partial_distance_matrix x partial_idx = Inr T \<and> is_tensor3 n k k T
           \<and> (\<forall>i<n. \<forall>a<k. \<forall>b<k.
                 T ! i ! a ! b =
                   (if partial_idx ! i ! a = - 1 \<or> partial_idx ! i ! b = - 1 then 0
                    else norm2 (vsub (x ! nat (partial_idx ! i ! a)) (x ! nat (partial_idx ! i ! b))))
                 \<and> T ! i ! a ! b = T ! i ! b ! a)
           \<and> distinct (map (\<lambda>u. {u div int n, u mod int n}) (distance_matrix_idx partial_idx))"
proof -
  let ?H = "\<lambda>p. if pd_valid p then pd_dist x n (pd_lin n p) else 0"
  let ?T = "map (\<lambda>row. map (\<lambda>a. map (\<lambda>b. ?H (b, a)) row) row) partial_idx"
  have x: "length x = n" using assms(3) by (simp add: is_matrix_def)
  have res: "partial_distance_matrix x partial_idx = Inr ?T"
    by (rule partial_distance_matrix_nested[OF assms(1,2) x])
  have len: "length partial_idx = n" and rows: "\<And>i. i < n \<Longrightarrow> length (partial_idx ! i) = k"
    using assms(1) by (simp_all add: is_matrix_def list_all_length)
  have shape: "is_tensor3 n k k ?T"
    using assms(1) by (auto simp: is_tensor3_def is_matrix_def list_all_iff)
  have bounds: "- 1 \<le> partial_idx ! i ! a \<and> partial_idx ! i ! a < int n" if "i < n" "a < k" for i a
    using assms(2) that len rows by (simp add: idx_in_range_def list_all_length)
  have entry: "?T ! i ! a ! b =
       (if partial_idx ! i ! a = - 1 \<or> partial_idx ! i ! b = - 1 then 0
        else norm2 (vsub (x ! nat (partial_idx ! i ! a)) (x ! nat (partial_idx ! i ! b))))"
    if "i < n" "a < k" "b < k" for i a b
  proof -
    have "?T ! i ! a ! b = ?H (partial_idx ! i ! b, partial_idx ! i ! a)"
      using that len rows by simp
    also have "\<dots> = (if partial_idx ! i ! a = - 1 \<or> partial_idx ! i ! b = - 1 then 0
        else norm2 (vsub (x ! nat (partial_idx ! i ! a)) (x ! nat (partial_idx ! i ! b))))"
      using bounds[OF that(1,2)] bounds[OF that(1,3)]
      by (auto simp: pd_valid_def intro!: pd_entry)
    finally show ?thesis .
  qed
  have sym: "?T ! i ! a ! b = ?T ! i ! b ! a" if "i < n" "a < k" "b < k" for i a b
    unfolding entry[OF that] entry[OF that(1,3,2)]
    using norm2_vsub_commute[of "x ! nat (partial_idx ! i ! a)" "x ! nat (partial_idx ! i ! b)"]
    by auto
  from res shape entry sym unordered_pairs_distinct[OF assms(1,2)] show ?thesis by blast
qed

lemma sqrt_25: "sqrt 25 = 5"
  by (rule real_sqrt_unique) simp_all

lemma partial_distance_matrix_example:
  "partial_distance_matrix [[0, 0], [3, 4]] [[0, 1], [- 1, - 1]] = Inr [[[0, 5], [5, 0]], [[0, 0], [0, 0]]]"
proof -
  have h1: "is_matrix 2 2 [[0, 1], [- 1, - 1 :: int]]" by (simp add: is_matrix_def)
  have h2: "idx_in_range 2 [[0, 1], [- 1, - 1]]" by (simp add: idx_in_range_def)
  show ?thesis
    unfolding partial_distance_matrix_nested[OF h1 h2, of "[[0, 0], [3, 4]]", simplified]
    by (simp add: pd_valid_def pd_dist_def pd_lin_def norm2_def vsub_def sqrt_25)
qed

text \<open>
  With the infinities: the result and the list of the computed norms in terms of the pairs
  of the flat tensors, for every feature matrix.
\<close>

definition pd_dist_ieee :: "fl list list \<Rightarrow> nat \<Rightarrow> int \<Rightarrow> fl" where
  "pd_dist_ieee x n u = norm2_ieee (vsub_ieee (x ! nat (u div int n)) (x ! nat (u mod int n)))"

lemma sparse_distances_ieee_eq:
  assumes m: "is_matrix n k idx" and r: "idx_in_range n idx" and x: "length x = n"
  shows "sparse_distances_ieee x idx = Inr (map (pd_dist_ieee x n) (distance_matrix_idx idx))"
proof -
  let ?ps = "pd_pairs idx"
  let ?lin = "map (pd_lin n) (filter pd_valid ?ps)"
  let ?F = "\<lambda>u. case tensor_row x (u div int n) of
                   Inl e \<Rightarrow> Inl e
                 | Inr xa \<Rightarrow>
                     (case tensor_row x (u mod int n) of
                        Inl e \<Rightarrow> Inl e
                      | Inr xb \<Rightarrow> Inr (norm2_ieee (vsub_ieee xa xb)))"
  have n: "length idx = n" using m by (simp add: is_matrix_def)
  have F: "?F u = Inr (pd_dist_ieee x n u)" if "u \<in> set ?lin" for u
  proof -
    from that obtain p where p: "p \<in> set ?ps" "pd_valid p" "u = pd_lin n p" by auto
    from pd_pairs_bounds[OF r p(1,2)] have b: "0 \<le> fst p" "fst p < int n" "0 \<le> snd p" "snd p < int n"
      by auto
    have "0 \<le> u div int n" "u div int n < int n" "0 \<le> u mod int n" "u mod int n < int n"
      using pd_lin_div_mod[OF b] b p(3) by (auto simp: min_def max_def)
    then show ?thesis by (simp add: tensor_row_def x pd_dist_ieee_def)
  qed
  have "list_all (\<lambda>u. ?F u = Inr (pd_dist_ieee x n u)) (unique ?lin)"
    using F by (simp add: list_all_iff unique_def)
  from sequence_all_Inr[OF this]
  have seq: "sequence (map ?F (unique ?lin)) = Inr (map (pd_dist_ieee x n) (unique ?lin))" .
  show ?thesis
    unfolding sparse_distances_ieee_def distance_matrix_idx_def Let_def pd_linear_index_eq[OF m] n seq ..
qed

lemma partial_distance_matrix_ieee_flat:
  assumes m: "is_matrix n k idx" and r: "idx_in_range n idx" and x: "length x = n"
  shows "partial_distance_matrix_ieee x idx =
     Inr (view3 n k k (map (\<lambda>p. if pd_valid p then pd_dist_ieee x n (pd_lin n p) else Fin 0) (pd_pairs idx)))"
proof -
  let ?ps = "pd_pairs idx"
  have n: "length idx = n" using m by (simp add: is_matrix_def)
  have k: "ncols idx = k \<or> idx = []" using m by (cases idx) (auto simp: is_matrix_def ncols_def)
  have rep: "replicate (n * k * k) (Fin 0) = map (\<lambda>p. Fin 0) ?ps"
    using pd_pairs_length[OF m] by (simp add: map_replicate_const)
  have nk: "n * ncols idx * ncols idx = n * k * k" "view3 n (ncols idx) (ncols idx) = (view3 n k k :: fl list \<Rightarrow> _)"
    using k n by (auto simp: view3_def fun_eq_iff)
  show ?thesis
    unfolding partial_distance_matrix_ieee_def sparse_distances_ieee_eq[OF m r x] Let_def
    unfolding distance_matrix_idx_def pd_linear_index_eq[OF m] pd_missing_mask_eq[OF m] n
    apply (simp only: sum.case gather_unique_inverse nk rep)
    apply (simp only: map_map comp_def)
    apply (simp only: masked_assign_filter[where g="\<lambda>p. Fin 0" and f="\<lambda>p. pd_dist_ieee x n (pd_lin n p)" and P=pd_valid])
    done
qed

lemma partial_distance_matrix_ieee_nested:
  assumes m: "is_matrix n k idx" and r: "idx_in_range n idx" and x: "length x = n"
  shows "partial_distance_matrix_ieee x idx =
     Inr (map (\<lambda>row. map (\<lambda>a. map (\<lambda>b. if pd_valid (b, a) then pd_dist_ieee x n (pd_lin n (b, a)) else Fin 0) row) row) idx)"
proof -
  let ?H = "\<lambda>p. if pd_valid p then pd_dist_ieee x n (pd_lin n p) else Fin 0"
  let ?N = "map (\<lambda>row. map (\<lambda>a. map (\<lambda>b. ?H (b, a)) row) row) idx"
  have flat: "map ?H (pd_pairs idx) = concat (map concat ?N)"
    by (simp add: pd_pairs_def map_concat comp_def)
  have shape: "list_all (\<lambda>xss. length xss = k \<and> list_all (\<lambda>xs. length xs = k) xss) ?N"
    using m by (auto simp: is_matrix_def list_all_iff)
  have len: "length ?N = n" using m by (simp add: is_matrix_def)
  show ?thesis
    unfolding partial_distance_matrix_ieee_flat[OF m r x] flat view3_concat[OF len shape] ..
qed

lemma vsub_ieee_in_range:
  "list_all (\<lambda>a. \<bar>a\<bar> \<le> b) u \<Longrightarrow> list_all (\<lambda>a. \<bar>a\<bar> \<le> b) v \<Longrightarrow> 2 * b \<le> flt_max
   \<Longrightarrow> vsub_ieee (map Fin u) (map Fin v) = map Fin (vsub u v) \<and> list_all (\<lambda>a. \<bar>a\<bar> \<le> 2 * b) (vsub u v)"
proof (induction u arbitrary: v)
  case Nil then show ?case by (simp add: vsub_ieee_def vsub_def)
next
  case (Cons a u)
  show ?case
  proof (cases v)
    case Nil then show ?thesis by (simp add: vsub_ieee_def vsub_def)
  next
    case (Cons c v')
    have ab: "\<bar>a\<bar> \<le> b" "\<bar>c\<bar> \<le> b" using Cons.prems Cons by simp_all
    then have d: "\<bar>a - c\<bar> \<le> 2 * b" by linarith
    with Cons.prems(3) have "\<bar>a - c\<bar> \<le> flt_max" by linarith
    then have "fl_sub (Fin a) (Fin c) = Fin (a - c)"
      using overflow_in_range[of "a - c"] by (simp add: fl_sub_def)
    moreover have "vsub_ieee (map Fin u) (map Fin v') = map Fin (vsub u v') \<and> list_all (\<lambda>a. \<bar>a\<bar> \<le> 2 * b) (vsub u v')"
      using Cons.IH[of v'] Cons.prems Cons by simp
    ultimately show ?thesis using Cons d by (simp add: vsub_ieee_def vsub_def)
  qed
qed

lemma norm2_ieee_in_range:
  assumes u: "list_all (\<lambda>a. \<bar>a\<bar> \<le> b) u" and v: "list_all (\<lambda>a. \<bar>a\<bar> \<le> b) v"
    and lu: "length u = d" and lv: "length v = d"
    and r: "4 * (real d * (b * b)) \<le> flt_max"
  shows "norm2_ieee (vsub_ieee (map Fin u) (map Fin v)) = Fin (norm2 (vsub u v))"
proof (cases "d = 0")
  case True
  then show ?thesis using lu lv by (simp add: norm2_ieee_def vsub_ieee_def norm2_def vsub_def fl_sum_def)
next
  case False
  then obtain a where a: "a \<in> set u" using lu by (cases u) auto
  then have b0: "0 \<le> b" using u by (auto simp: list_all_iff)
  have d1: "1 \<le> real d" using False by simp
  have fm: "2 \<le> flt_max" by (simp add: flt_max_def)
  have b2: "2 * b \<le> flt_max"
  proof (cases "b \<le> 1")
    case True then show ?thesis using fm by linarith
  next
    case False
    then have "b \<le> b * b" using b0 by simp
    moreover have "0 \<le> b * b" by simp
    then have "b * b \<le> real d * (b * b)" using d1 by (simp add: mult_le_cancel_right1)
    ultimately show ?thesis using r b0 by linarith
  qed
  note s = vsub_ieee_in_range[OF u v b2]
  have len: "length (vsub u v) = d" using lu lv by (simp add: vsub_def)
  have r': "real d * (2 * b * (2 * b)) \<le> flt_max" using r by (simp add: algebra_simps)
  note q = fl_norm_in_range[OF conjunct2[OF s] len r']
  have nn: "0 \<le> sum_list (map (\<lambda>a. a ^ 2) (vsub u v))" by (rule sum_list_nonneg) auto
  show ?thesis
    unfolding norm2_ieee_def conjunct1[OF s] q(1) norm2_def using nn by simp
qed

lemma pd_pairs_set_nth:
  assumes m: "is_matrix n k idx"
  shows "set (pd_pairs idx) = {(idx ! i ! b, idx ! i ! a) | i a b. i < n \<and> a < k \<and> b < k}"
proof -
  have len: "length idx = n" and rows: "\<And>i. i < n \<Longrightarrow> length (idx ! i) = k"
    using m by (simp_all add: is_matrix_def list_all_length)
  have "set (pd_pairs idx) = {(q, p) | row p q. row \<in> set idx \<and> p \<in> set row \<and> q \<in> set row}"
    by (auto simp: pd_pairs_def)
  also have "\<dots> = {(idx ! i ! b, idx ! i ! a) | i a b. i < n \<and> a < k \<and> b < k}"
  proof (intro set_eqI iffI)
    fix z assume "z \<in> {(q, p) | row p q. row \<in> set idx \<and> p \<in> set row \<and> q \<in> set row}"
    then obtain row p q where z: "z = (q, p)" "row \<in> set idx" "p \<in> set row" "q \<in> set row" by blast
    from z(2) len obtain i where i: "i < n" "row = idx ! i" by (auto simp: in_set_conv_nth)
    from z(3) i rows[OF i(1)] obtain a where a: "a < k" "p = idx ! i ! a" by (auto simp: in_set_conv_nth)
    from z(4) i rows[OF i(1)] obtain b where b: "b < k" "q = idx ! i ! b" by (auto simp: in_set_conv_nth)
    from z(1) i a b show "z \<in> {(idx ! i ! b, idx ! i ! a) | i a b. i < n \<and> a < k \<and> b < k}" by blast
  next
    fix z assume "z \<in> {(idx ! i ! b, idx ! i ! a) | i a b. i < n \<and> a < k \<and> b < k}"
    then obtain i a b where z: "z = (idx ! i ! b, idx ! i ! a)" "i < n" "a < k" "b < k" by blast
    have "idx ! i \<in> set idx" using z(2) len by simp
    moreover have "idx ! i ! a \<in> set (idx ! i)" "idx ! i ! b \<in> set (idx ! i)"
      using z rows[OF z(2)] by simp_all
    ultimately show "z \<in> {(q, p) | row p q. row \<in> set idx \<and> p \<in> set row \<and> q \<in> set row}"
      using z(1) by blast
  qed
  finally show ?thesis .
qed

lemma distance_matrix_idx_pairs:
  assumes m: "is_matrix n k idx" and r: "idx_in_range n idx"
  shows "list_all (\<lambda>u. u div int n \<le> u mod int n) (distance_matrix_idx idx)"
    and "(\<lambda>u. {u div int n, u mod int n}) ` set (distance_matrix_idx idx)
         = {{idx ! i ! a, idx ! i ! b} | i a b. i < n \<and> a < k \<and> b < k \<and> idx ! i ! a \<noteq> - 1 \<and> idx ! i ! b \<noteq> - 1}"
proof -
  let ?V = "{p \<in> set (pd_pairs idx). pd_valid p}"
  have s: "set (distance_matrix_idx idx) = pd_lin n ` ?V"
    by (simp add: distance_matrix_idx_def unique_def pd_linear_index_eq[OF m])
  have dm: "pd_lin n p div int n = min (fst p) (snd p) \<and> pd_lin n p mod int n = max (fst p) (snd p)"
    if "p \<in> ?V" for p
  proof -
    from that pd_pairs_bounds[OF r, of p] have b: "0 \<le> fst p" "fst p < int n" "0 \<le> snd p" "snd p < int n"
      by auto
    from pd_lin_div_mod[OF b] show ?thesis by simp
  qed
  show "list_all (\<lambda>u. u div int n \<le> u mod int n) (distance_matrix_idx idx)"
    unfolding list_all_iff s using dm by auto
  have pair: "{pd_lin n p div int n, pd_lin n p mod int n} = {snd p, fst p}" if "p \<in> ?V" for p
    using dm[OF that] by (auto simp: min_def max_def)
  have "(\<lambda>u. {u div int n, u mod int n}) ` set (distance_matrix_idx idx) = (\<lambda>p. {snd p, fst p}) ` ?V"
    unfolding s image_image using pair by (intro image_cong) simp_all
  also have "\<dots> = {{idx ! i ! a, idx ! i ! b} | i a b. i < n \<and> a < k \<and> b < k \<and> idx ! i ! a \<noteq> - 1 \<and> idx ! i ! b \<noteq> - 1}"
    unfolding pd_pairs_set_nth[OF m] by (auto simp: pd_valid_def image_iff) blast+
  finally show "(\<lambda>u. {u div int n, u mod int n}) ` set (distance_matrix_idx idx)
         = {{idx ! i ! a, idx ! i ! b} | i a b. i < n \<and> a < k \<and> b < k \<and> idx ! i ! a \<noteq> - 1 \<and> idx ! i ! b \<noteq> - 1}" .
qed

lemma pd_dist_ieee_in_range:
  assumes x: "is_matrix n d x" and bd: "list_all (list_all (\<lambda>v. \<bar>v\<bar> \<le> B)) x"
    and rg: "4 * (real d * (B * B)) \<le> flt_max"
    and u: "0 \<le> u div int n" "u div int n < int n" "0 \<le> u mod int n" "u mod int n < int n"
  shows "pd_dist_ieee (map (map Fin) x) n u = Fin (pd_dist x n u)"
proof -
  have len: "length x = n" and rows: "\<And>j. j < n \<Longrightarrow> length (x ! j) = d"
    using x by (simp_all add: is_matrix_def list_all_length)
  have bj: "list_all (\<lambda>v. \<bar>v\<bar> \<le> B) (x ! j)" if "j < n" for j
    using bd that len by (simp add: list_all_length)
  have ja: "nat (u div int n) < n" using u(1,2) by linarith
  have jb: "nat (u mod int n) < n" using u(3,4) by linarith
  show ?thesis
    unfolding pd_dist_ieee_def pd_dist_def
    using norm2_ieee_in_range[OF bj[OF ja] bj[OF jb] rows[OF ja] rows[OF jb] rg] ja jb len by simp
qed

text \<open>
  C6. For a feature matrix \<open>x\<close> of shape \<open>[n, d]\<close> whose entries are bounded by \<open>B\<close>, with
  \<open>4 * d * B\<^sup>2\<close> not above the largest float, and an index matrix of shape \<open>[n, k]\<close> with
  entries in \<open>{-1, 0, ..., n-1}\<close>, \<^verbatim>\<open>partial_distance_matrix\<close> does not fail (also when a row
  holds only sentinels) and returns a tensor of shape \<open>[n, k, k]\<close>. Its entry \<open>(i, a, b)\<close> is 0
  when one of the two indices is the sentinel and the Euclidean distance of the rows
  \<open>x[partial_idx[i, a]]\<close> and \<open>x[partial_idx[i, b]]\<close> otherwise, and it is symmetric in
  \<open>(a, b)\<close>. The norms that are computed are one for every element of
  \<open>distance_matrix_idx\<close>, the distance of the rows \<open>u div n\<close> and \<open>u mod n\<close>; these elements stand
  for pairwise different unordered pairs of nodes, the smaller index first, and the pairs
  they stand for are the unordered pairs \<open>{partial_idx[i, a], partial_idx[i, b]}\<close> without a
  sentinel: the distance of every such pair is computed once.
\<close>

theorem partial_distance_matrix_ieee_correct:
  assumes m: "is_matrix n k partial_idx" and r: "idx_in_range n partial_idx" and x: "is_matrix n d x"
    and bd: "list_all (list_all (\<lambda>v. \<bar>v\<bar> \<le> B)) x" and rg: "4 * (real d * (B * B)) \<le> flt_max"
  shows "\<exists>T. partial_distance_matrix_ieee (map (map Fin) x) partial_idx = Inr T \<and> is_tensor3 n k k T
           \<and> (\<forall>i<n. \<forall>a<k. \<forall>b<k.
                 T ! i ! a ! b =
                   (if partial_idx ! i ! a = - 1 \<or> partial_idx ! i ! b = - 1 then Fin 0
                    else Fin (norm2 (vsub (x ! nat (partial_idx ! i ! a)) (x ! nat (partial_idx ! i ! b)))))
                 \<and> T ! i ! a ! b = T ! i ! b ! a)
           \<and> sparse_distances_ieee (map (map Fin) x) partial_idx
               = Inr (map (\<lambda>u. Fin (norm2 (vsub (x ! nat (u div int n)) (x ! nat (u mod int n)))))
                        (distance_matrix_idx partial_idx))
           \<and> distinct (map (\<lambda>u. {u div int n, u mod int n}) (distance_matrix_idx partial_idx))
           \<and> list_all (\<lambda>u. u div int n \<le> u mod int n) (distance_matrix_idx partial_idx)
           \<and> (\<lambda>u. {u div int n, u mod int n}) ` set (distance_matrix_idx partial_idx)
               = {{partial_idx ! i ! a, partial_idx ! i ! b} | i a b.
                    i < n \<and> a < k \<and> b < k \<and> partial_idx ! i ! a \<noteq> - 1 \<and> partial_idx ! i ! b \<noteq> - 1}"
proof -
  let ?X = "map (map Fin) x"
  let ?H = "\<lambda>p. if pd_valid p then pd_dist_ieee ?X n (pd_lin n p) else Fin 0"
  let ?T = "map (\<lambda>row. map (\<lambda>a. map (\<lambda>b. ?H (b, a)) row) row) partial_idx"
  have lx: "length ?X = n" using x by (simp add: is_matrix_def)
  have res: "partial_distance_matrix_ieee ?X partial_idx = Inr ?T"
    by (rule partial_distance_matrix_ieee_nested[OF m r lx])
  have len: "length partial_idx = n" and rows: "\<And>i. i < n \<Longrightarrow> length (partial_idx ! i) = k"
    using m by (simp_all add: is_matrix_def list_all_length)
  have shape: "is_tensor3 n k k ?T"
    using m by (auto simp: is_tensor3_def is_matrix_def list_all_iff)
  have bounds: "- 1 \<le> partial_idx ! i ! a \<and> partial_idx ! i ! a < int n" if "i < n" "a < k" for i a
    using r that len rows by (simp add: idx_in_range_def list_all_length)
  have ieee: "pd_dist_ieee ?X n (pd_lin n (q, p)) = Fin (norm2 (vsub (x ! nat p) (x ! nat q)))"
    if "0 \<le> p" "p < int n" "0 \<le> q" "q < int n" for p q
  proof -
    have "pd_lin n (q, p) div int n = min q p" "pd_lin n (q, p) mod int n = max q p"
      using pd_lin_div_mod[of "(q, p)" n] that by simp_all
    then have "pd_dist_ieee ?X n (pd_lin n (q, p)) = Fin (pd_dist x n (pd_lin n (q, p)))"
      using that by (intro pd_dist_ieee_in_range[OF x bd rg]) (auto simp: min_def max_def)
    then show ?thesis using pd_entry[OF that] by simp
  qed
  have entry: "?T ! i ! a ! b =
       (if partial_idx ! i ! a = - 1 \<or> partial_idx ! i ! b = - 1 then Fin 0
        else Fin (norm2 (vsub (x ! nat (partial_idx ! i ! a)) (x ! nat (partial_idx ! i ! b)))))"
    if "i < n" "a < k" "b < k" for i a b
  proof -
    have "?T ! i ! a ! b = ?H (partial_idx ! i ! b, partial_idx ! i ! a)"
      using that len rows by simp
    also have "\<dots> = (if partial_idx ! i ! a = - 1 \<or> partial_idx ! i ! b = - 1 then Fin 0
        else Fin (norm2 (vsub (x ! nat (partial_idx ! i ! a)) (x ! nat (partial_idx ! i ! b)))))"
      using bounds[OF that(1,2)] bounds[OF that(1,3)]
      by (auto simp: pd_valid_def intro!: ieee)
    finally show ?thesis .
  qed
  have sym: "?T ! i ! a ! b = ?T ! i ! b ! a" if "i < n" "a < k" "b < k" for i a b
    unfolding entry[OF that] entry[OF that(1,3,2)]
    using norm2_vsub_commute[of "x ! nat (partial_idx ! i ! a)" "x ! nat (partial_idx ! i ! b)"]
    by auto
  note pairs = distance_matrix_idx_pairs[OF m r]
  have "map (pd_dist_ieee ?X n) (distance_matrix_idx partial_idx)
        = map (\<lambda>u. Fin (norm2 (vsub (x ! nat (u div int n)) (x ! nat (u mod int n))))) (distance_matrix_idx partial_idx)"
  proof (rule map_cong[OF refl])
    fix u assume u: "u \<in> set (distance_matrix_idx partial_idx)"
    then have "u \<in> pd_lin n ` {p \<in> set (pd_pairs partial_idx). pd_valid p}"
      by (simp add: distance_matrix_idx_def unique_def pd_linear_index_eq[OF m])
    then obtain p where p: "p \<in> set (pd_pairs partial_idx)" "pd_valid p" "u = pd_lin n p" by auto
    from pd_pairs_bounds[OF r p(1,2)] have b: "0 \<le> fst p" "fst p < int n" "0 \<le> snd p" "snd p < int n"
      by auto
    have "0 \<le> u div int n" "u div int n < int n" "0 \<le> u mod int n" "u mod int n < int n"
      using pd_lin_div_mod[OF b] b p(3) by (auto simp: min_def max_def)
    from pd_dist_ieee_in_range[OF x bd rg this]
    show "pd_dist_ieee ?X n u = Fin (norm2 (vsub (x ! nat (u div int n)) (x ! nat (u mod int n))))"
      by (simp add: pd_dist_def)
  qed
  with sparse_distances_ieee_eq[OF m r lx]
  have sp: "sparse_distances_ieee ?X partial_idx
      = Inr (map (\<lambda>u. Fin (norm2 (vsub (x ! nat (u div int n)) (x ! nat (u mod int n))))) (distance_matrix_idx partial_idx))"
    by simp
  from res shape entry sym sp unordered_pairs_distinct[OF m r] pairs show ?thesis by blast
qed

theorem partial_distance_matrix_ieee_correct_witness:
  "is_matrix 3 2 [[0, 1], [- 1, - 1], [1, 0 :: int]] \<and> idx_in_range 3 [[0, 1], [- 1, - 1], [1, 0]]
   \<and> is_matrix 3 2 [[0, 0], [3, 4], [6, 8 :: real]]
   \<and> list_all (list_all (\<lambda>v. \<bar>v\<bar> \<le> 8)) [[0, 0], [3, 4], [6, 8 :: real]]
   \<and> 4 * (real 2 * (8 * 8)) \<le> flt_max
   \<and> (\<exists>T. partial_distance_matrix_ieee (map (map Fin) [[0, 0], [3, 4], [6, 8]]) [[0, 1], [- 1, - 1], [1, 0]] = Inr T
           \<and> is_tensor3 3 2 2 T
           \<and> (\<forall>i<3. \<forall>a<2. \<forall>b<2.
                 T ! i ! a ! b =
                   (if [[0, 1], [- 1, - 1], [1, 0 :: int]] ! i ! a = - 1 \<or> [[0, 1], [- 1, - 1], [1, 0 :: int]] ! i ! b = - 1 then Fin 0
                    else Fin (norm2 (vsub ([[0, 0], [3, 4], [6, 8]] ! nat ([[0, 1], [- 1, - 1], [1, 0]] ! i ! a))
                                          ([[0, 0], [3, 4], [6, 8]] ! nat ([[0, 1], [- 1, - 1], [1, 0]] ! i ! b)))))
                 \<and> T ! i ! a ! b = T ! i ! b ! a)
           \<and> sparse_distances_ieee (map (map Fin) [[0, 0], [3, 4], [6, 8]]) [[0, 1], [- 1, - 1], [1, 0]]
               = Inr (map (\<lambda>u. Fin (norm2 (vsub ([[0, 0], [3, 4], [6, 8]] ! nat (u div int 3))
                                                ([[0, 0], [3, 4], [6, 8]] ! nat (u mod int 3)))))
                        (distance_matrix_idx [[0, 1], [- 1, - 1], [1, 0]]))
           \<and> distinct (map (\<lambda>u. {u div int 3, u mod int 3}) (distance_matrix_idx [[0, 1], [- 1, - 1], [1, 0]]))
           \<and> list_all (\<lambda>u. u div int 3 \<le> u mod int 3) (distance_matrix_idx [[0, 1], [- 1, - 1], [1, 0]])
           \<and> (\<lambda>u. {u div int 3, u mod int 3}) ` set (distance_matrix_idx [[0, 1], [- 1, - 1], [1, 0]])
               = {{[[0, 1], [- 1, - 1], [1, 0 :: int]] ! i ! a, [[0, 1], [- 1, - 1], [1, 0]] ! i ! b} | i a b.
                    i < 3 \<and> a < 2 \<and> b < 2 \<and> [[0, 1], [- 1, - 1], [1, 0 :: int]] ! i ! a \<noteq> - 1
                    \<and> [[0, 1], [- 1, - 1], [1, 0 :: int]] ! i ! b \<noteq> - 1})"
proof -
  have h1: "is_matrix 3 2 [[0, 1], [- 1, - 1], [1, 0 :: int]]" by (simp add: is_matrix_def)
  have h2: "idx_in_range 3 [[0, 1], [- 1, - 1], [1, 0]]" by (simp add: idx_in_range_def)
  have h3: "is_matrix 3 2 [[0, 0], [3, 4], [6, 8 :: real]]" by (simp add: is_matrix_def)
  have h4: "list_all (list_all (\<lambda>v. \<bar>v\<bar> \<le> 8)) [[0, 0], [3, 4], [6, 8 :: real]]" by simp
  have h5: "4 * (real 2 * (8 * 8)) \<le> flt_max" by (simp add: flt_max_def)
  from partial_distance_matrix_ieee_correct[OF h1 h2 h3 h4 h5] h1 h2 h3 h4 h5 show ?thesis by blast
qed

text \<open>
  On the index matrix of the example above the eight positions without a sentinel hold
  three different linear indices, and three norms are computed.
\<close>

lemma distance_matrix_idx_example:
  "pd_linear_index [[0, 1], [- 1, - 1], [1, 0]] = [0, 1, 1, 4, 4, 1, 1, 0]
   \<and> distance_matrix_idx [[0, 1], [- 1, - 1], [1, 0]] = [0, 1, 4]"
  by (simp add: distance_matrix_idx_def unique_def pd_linear_index_def pd_missing_mask_def pd_idx_row_def
        pd_idx_column_def ncols_def select_mask_def Let_def)

lemma partial_distance_matrix_ieee_example:
  "partial_distance_matrix_ieee (map (map Fin) [[0, 0], [3, 4], [6, 8]]) [[0, 1], [- 1, - 1], [1, 0]]
     = Inr [[[Fin 0, Fin 5], [Fin 5, Fin 0]], [[Fin 0, Fin 0], [Fin 0, Fin 0]], [[Fin 0, Fin 5], [Fin 5, Fin 0]]]
   \<and> sparse_distances_ieee (map (map Fin) [[0, 0], [3, 4], [6, 8]]) [[0, 1], [- 1, - 1], [1, 0]]
     = Inr [Fin 0, Fin 5, Fin 0]"
proof -
  have h1: "is_matrix 3 2 [[0, 1], [- 1, - 1], [1, 0 :: int]]" by (simp add: is_matrix_def)
  have h2: "idx_in_range 3 [[0, 1], [- 1, - 1], [1, 0]]" by (simp add: idx_in_range_def)
  have fm: "(25 :: real) \<le> flt_max" by (simp add: flt_max_def)
  have ov: "overflow 0 = Fin 0" "overflow 9 = Fin 9" "overflow 16 = Fin 16" "overflow 25 = Fin 25"
    "overflow 3 = Fin 3" "overflow 4 = Fin 4" "overflow (- 3) = Fin (- 3)" "overflow (- 4) = Fin (- 4)"
    using fm by (simp_all add: overflow_in_range)
  have a: "partial_distance_matrix_ieee [[Fin 0, Fin 0], [Fin 3, Fin 4], [Fin 6, Fin 8]] [[0, 1], [- 1, - 1], [1, 0]]
     = Inr [[[Fin 0, Fin 5], [Fin 5, Fin 0]], [[Fin 0, Fin 0], [Fin 0, Fin 0]], [[Fin 0, Fin 5], [Fin 5, Fin 0]]]"
    unfolding partial_distance_matrix_ieee_nested[OF h1 h2, of "[[Fin 0, Fin 0], [Fin 3, Fin 4], [Fin 6, Fin 8]]", simplified]
    by (simp add: pd_valid_def pd_dist_ieee_def pd_lin_def norm2_ieee_def vsub_ieee_def fl_sub_def fl_sum_def
          ov sqrt_25)
  have b: "sparse_distances_ieee [[Fin 0, Fin 0], [Fin 3, Fin 4], [Fin 6, Fin 8]] [[0, 1], [- 1, - 1], [1, 0]]
     = Inr [Fin 0, Fin 5, Fin 0]"
    unfolding sparse_distances_ieee_eq[OF h1 h2, of "[[Fin 0, Fin 0], [Fin 3, Fin 4], [Fin 6, Fin 8]]", simplified]
      conjunct2[OF distance_matrix_idx_example]
    by (simp add: pd_dist_ieee_def norm2_ieee_def vsub_ieee_def fl_sub_def fl_sum_def ov sqrt_25)
  from a b show ?thesis by simp
qed

text \<open>
  Without the bound the entry need not be the distance: for the two nodes \<open>0\<close> and \<open>2\<^sup>6\<^sup>4\<close>,
  both floats, the distance \<open>2\<^sup>6\<^sup>4\<close> is a float, but its square is beyond the largest float and
  the norm that is computed is infinite.
\<close>

theorem partial_distance_matrix_inf_on_overflow:
  "partial_distance_matrix_ieee (map (map Fin) [[0], [2 ^ 64]]) [[0, 1], [0, 1]]
     = Inr [[[Fin 0, PInf], [PInf, Fin 0]], [[Fin 0, PInf], [PInf, Fin 0]]]
   \<and> norm2 (vsub [0] [2 ^ 64]) = 2 ^ 64 \<and> (2 ^ 64 :: real) \<le> flt_max"
proof -
  define c :: real where "c = 2 ^ 64"
  have h1: "is_matrix 2 2 [[0, 1], [0, 1 :: int]]" by (simp add: is_matrix_def)
  have h2: "idx_in_range 2 [[0, 1], [0, 1]]" by (simp add: idx_in_range_def)
  have c: "0 < c" "c \<le> flt_max" "flt_max < c * c" by (simp_all add: c_def flt_max_def)
  have ov: "overflow 0 = Fin 0" "overflow (- c) = Fin (- c)" "overflow (c * c) = PInf"
    using c by (simp_all add: overflow_def)
  have a: "partial_distance_matrix_ieee [[Fin 0], [Fin c]] [[0, 1], [0, 1]]
     = Inr [[[Fin 0, PInf], [PInf, Fin 0]], [[Fin 0, PInf], [PInf, Fin 0]]]"
    unfolding partial_distance_matrix_ieee_nested[OF h1 h2, of "[[Fin 0], [Fin c]]", simplified]
    by (simp add: pd_valid_def pd_dist_ieee_def pd_lin_def norm2_ieee_def vsub_ieee_def fl_sub_def fl_sum_def ov)
  have b: "norm2 (vsub [0] [c]) = c" using c(1) by (simp add: norm2_def vsub_def)
  from a b c(2) show ?thesis unfolding c_def by simp
qed

section \<open>Properties of the top-k neighbour selector\<close>

text \<open>On the adjacency of the repository's tests the model returns what the tests expect.\<close>

lemma sparse_top_k_test_example:
  "sparse_top_k [0, 0, 0, 1, 1, 2, 2, 3, 3, 3] [0, 1, 3, 0, 1, 2, 3, 0, 2, 3]
       [0.5, 0.3, 0.4, 0.3, 0.2, 0.9, 0.3, 0.4, 0.4, 0.4] 4 3
     = Inr ([[0.5, 0.4, 0.3], [0.3, 0.2, 0], [0.9, 0.3, 0], [0.4, 0.4, 0.4]],
            [[0, 3, 1], [0, 1, - 1], [2, 3, - 1], [0, 2, 3]])"
  by code_simp

text \<open>
  The entries of the adjacency \<open>[[0, 0, 0], [0, 0, 0.9], [0.2, 0, 0]]\<close>, whose row 0 is
  empty, as \<^verbatim>\<open>soft_weighted_medoid_k_neighborhood\<close> passes them to the selector: the entries
  of \<^verbatim>\<open>A.coo()\<close> followed by the placeholder \<open>(0, 0, 0)\<close> for row 0, so that the row indices
  are not sorted. Every row has one entry, so no order of equal weights matters.
\<close>

lemma add_missing_rows_example:
  "add_missing_rows 3 ([1, 2], [2, 0], [0.9, 0.2]) = ([1, 2, 0], [2, 0, 0], [0.9, 0.2, 0])"
  by code_simp

lemma sparse_top_k_example:
  "sparse_top_k [1, 2, 0] [2, 0, 0] [0.9, 0.2, 0] 3 1 = Inr ([[0.9], [0.2], [0]], [[0], [2], [0]])"
  by code_simp

text \<open>
  C3. The claim is that for every row the selector returns the \<open>min(k, out-degree)\<close> highest
  weights of that row, largest first, with their columns. On the entries above and
  \<open>k = 1\<close> the selector returns weight \<open>0.9\<close> for row 0, whose only entry is the placeholder
  of weight 0; weight \<open>0.2\<close> at column 2 for row 1, whose entry at column 2 has weight \<open>0.9\<close>;
  and weight 0 at column 0 for row 2, whose entry at column 0 has weight \<open>0.2\<close>. The row and
  column indices are reordered by \<open>sort_idx\<close>, the values are not.
\<close>

theorem sparse_top_k_misaligned_values:
  "add_missing_rows 3 (coo (Sparse \<lparr>st_rows = [1, 2], st_cols = [2, 0], st_values = [0.9, 0.2],
                                     st_size = 3\<rparr>))
     = ([1, 2, 0], [2, 0, 0], [0.9, 0.2, 0])
   \<and> sparse_top_k [1, 2, 0] [2, 0, 0] [0.9, 0.2, 0] 3 1 = Inr ([[0.9], [0.2], [0]], [[0], [2], [0]])"
  using add_missing_rows_example sparse_top_k_example by simp

section \<open>Properties of the neighbourhood size check\<close>

lemma select_k_loop_error:
  "select_k_loop row_idx col_idx vals k_per_row start rows acc = Inl e \<Longrightarrow> e = IndexError"
  by (induction rows arbitrary: start acc) (auto split: if_splits)

lemma sparse_top_k_error:
  "sparse_top_k A_rows A_cols A_values n k = Inl e \<Longrightarrow> e = IndexError \<or> e = ValueError"
  by (auto simp: sparse_top_k_def select_k_idx_cpu_def Let_def split: sum.splits prod.splits if_splits
           dest: select_k_loop_error)

lemma sequence_error:
  "sequence rs = Inl e \<Longrightarrow> Inl e \<in> set rs"
  by (induction rs rule: sequence.induct) (auto split: sum.splits)

lemma partial_distance_matrix_error:
  "partial_distance_matrix x partial_idx = Inl e \<Longrightarrow> e = IndexError"
  by (auto simp: partial_distance_matrix_def distance_matrix_idx_def Let_def tensor_row_def
           split: sum.splits if_splits dest!: sequence_error)

lemma sparse_branch_error:
  "sparse_soft_weighted_medoid_k_neighborhood A x k temperature wwc eps = Inl e
     \<Longrightarrow> e = IndexError \<or> e = ValueError"
  by (auto simp: sparse_soft_weighted_medoid_k_neighborhood_def Let_def
           split: sum.splits prod.splits
           dest: sparse_top_k_error partial_distance_matrix_error)

text \<open>
  C4. When \<open>k\<close> exceeds the number \<open>n\<close> of nodes, \<^verbatim>\<open>soft_weighted_medoid_k_neighborhood\<close> with
  the weight correction returns the error \<open>NotImplementedError\<close> and no result, and without
  the weight correction it returns the result of \<^verbatim>\<open>soft_weighted_medoid\<close>;
  \<^verbatim>\<open>weighted_medoid_k_neighborhood\<close> returns the result of \<^verbatim>\<open>weighted_medoid\<close>. The condition
  of the code is \<open>k > n\<close>: for \<open>k \<le> n\<close>, also for \<open>k = n\<close>, the error is never
  \<open>NotImplementedError\<close>.
\<close>

theorem k_exceeds_n_fallback:
  "(length x < k \<longrightarrow>
      soft_weighted_medoid_k_neighborhood A x k temperature True threshold eps = Inl NotImplementedError
    \<and> soft_weighted_medoid_k_neighborhood A x k temperature False threshold eps
        = Inr (soft_weighted_medoid A x temperature)
    \<and> weighted_medoid_k_neighborhood A x k = weighted_medoid A x)
   \<and> (k \<le> length x \<longrightarrow>
      soft_weighted_medoid_k_neighborhood A x k temperature with_weight_correction threshold eps
        \<noteq> Inl NotImplementedError)"
proof -
  have "soft_weighted_medoid_k_neighborhood A x k temperature with_weight_correction threshold eps
        \<noteq> Inl NotImplementedError" if "k \<le> length x"
    using that sparse_branch_error[of A x k temperature with_weight_correction eps NotImplementedError]
    by (auto simp: soft_weighted_medoid_k_neighborhood_def Let_def)
  then show ?thesis
    by (simp add: soft_weighted_medoid_k_neighborhood_def weighted_medoid_k_neighborhood_def Let_def)
qed

theorem k_exceeds_n_fallback_witness:
  "length [[0], [1 :: real]] < 3
   \<and> soft_weighted_medoid_k_neighborhood (Dense [[0, 1], [1, 0]]) [[0], [1]] 3 1 True 5000 (1 / 10 ^ 10)
       = Inl NotImplementedError
   \<and> soft_weighted_medoid_k_neighborhood (Dense [[0, 1], [1, 0]]) [[0], [1]] 3 1 False 5000 (1 / 10 ^ 10)
       = Inr (soft_weighted_medoid (Dense [[0, 1], [1, 0]]) [[0], [1]] 1)
   \<and> weighted_medoid_k_neighborhood (Dense [[0, 1], [1, 0]]) [[0], [1]] 3
       = weighted_medoid (Dense [[0, 1], [1, 0]]) [[0], [1]]
   \<and> 2 \<le> length [[0], [1 :: real]]
   \<and> soft_weighted_medoid_k_neighborhood (Dense [[0, 1], [1, 0]]) [[0], [1]] 2 1 True 5000 (1 / 10 ^ 10)
       \<noteq> Inl NotImplementedError"
  using k_exceeds_n_fallback[of "[[0], [1]]" 3 "Dense [[0, 1], [1, 0]]" 1 5000 "1 / 10 ^ 10" True]
        k_exceeds_n_fallback[of "[[0], [1]]" 2 "Dense [[0, 1], [1, 0]]" 1 5000 "1 / 10 ^ 10" True]
  by simp

section \<open>Properties of the weighted dimension-wise median\<close>






















lemma weighted_dimwise_median_cpu_test_example:
  "weighted_dimwise_median_cpu
     (Dense [[0.5, 0.3, 0, 0.4], [0.3, 0.2, 0, 0], [0, 0, 0.9, 0.3], [0.4, 0, 0.4, 0.4]])
     [[- 10, 10, 10], [- 1, 1, 1], [0, 0, 0], [10, - 10, - 10]]
   = [[- 1.2, 1.2, 1.2], [- 5, 5, 5], [0, 0, 0], [0, 0, 0]]"
  by code_simp



section \<open>Properties of the weighted medoid\<close>












section \<open>The dense and the sparse implementation of the soft weighted medoid\<close>

lemma from_dense_example:
  "from_dense [[0, 0, 0], [0, 0, 0.9], [0.2, 0, 0]]
     = \<lparr>st_rows = [1, 2], st_cols = [2, 0], st_values = [0.9, 0.2], st_size = 3\<rparr>"
  by code_simp

lemma to_dense_example:
  "sparse_to_dense \<lparr>st_rows = [1, 2], st_cols = [2, 0], st_values = [0.9, 0.2], st_size = 3\<rparr>
     = [[0, 0, 0], [0, 0, 0.9], [0.2, 0, 0]]"
  by code_simp

lemma scatter_sum_example: "scatter_sum [0.9, 0.2, 0] [1, 2, 0] = [0, 0.9, 0.2]"
  by code_simp

lemma topk_examples:
  "topk [0, 0, 0] 1 = [(0, 0)]" "topk [0, 0, 0.9] 1 = [(0.9, 2)]" "topk [0.2, 0, 0] 1 = [(0.2, 0)]"
  by code_simp+

lemma softmax_single: "softmax [a] = [1]"
  by (simp add: softmax_def)

lemma dense_example:
  "dense_cpu_soft_weighted_medoid_k_neighborhood
     (Sparse \<lparr>st_rows = [1, 2], st_cols = [2, 0], st_values = [0.9, 0.2], st_size = 3\<rparr>)
     [[1], [0], [0]] 1 1 True (1 / 10 ^ 10)
   = [[0], [0], [0.2 * (0.2 / (0.2 + 1 / 10 ^ 10))]]"
  by (simp add: dense_cpu_soft_weighted_medoid_k_neighborhood_def Let_def to_dense_example[simplified]
        topk_examples[simplified] topk_distances_def softmax_single row_matmul_def ncols_def)

lemma partial_distance_example:
  "partial_distance_matrix [[1], [0], [0]] [[0], [2], [0]] = Inr [[[0]], [[0]], [[0]]]"
proof -
  have h1: "is_matrix 3 1 [[0], [2], [0 :: int]]" by (simp add: is_matrix_def)
  have h2: "idx_in_range 3 [[0], [2], [0]]" by (simp add: idx_in_range_def)
  show ?thesis
    unfolding partial_distance_matrix_nested[OF h1 h2, of "[[1], [0], [0]]", simplified]
    by (simp add: pd_valid_def pd_dist_def pd_lin_def norm2_def vsub_def)
qed

lemma sparse_branch_unfold:
  assumes "length x = n" "add_missing_rows n (coo A) = (A_rows, A_cols, A_values)"
    and "sparse_top_k A_rows A_cols A_values n k = Inr (top_k_weights, top_k_idx)"
    and "partial_distance_matrix x top_k_idx = Inr distances"
  shows "sparse_soft_weighted_medoid_k_neighborhood A x k temperature True eps =
    Inr (map2 (\<lambda>s row. map ((*) s) row) (scatter_sum A_values A_rows)
          (spmm (select_mask (map (\<lambda>j. j \<noteq> - 1) (concat top_k_idx)) (concat (map (replicate k) [0..<n])))
                (map nat (select_mask (map (\<lambda>j. j \<noteq> - 1) (concat top_k_idx)) (concat top_k_idx)))
                (select_mask (map (\<lambda>j. j \<noteq> - 1) (concat top_k_idx))
                   (concat (map (\<lambda>r_i. map (\<lambda>r. r / (sum_list r_i + eps)) r_i)
                      (map2 (map2 (*))
                         (map (\<lambda>d_i. softmax (map (\<lambda>d. - d / temperature) d_i))
                            (map (map replace_nonfinite)
                               (map2 (map2 (\<lambda>j d. if j = - 1 then flt_max else d)) top_k_idx
                                  (map2 (\<lambda>w D_i. map (\<lambda>D_ia. sum_list (map2 (*) w D_ia)) D_i)
                                     top_k_weights distances))))
                         top_k_weights))))
                n x))"
  using assms by (simp add: sparse_soft_weighted_medoid_k_neighborhood_def Let_def comp_def)

lemma sparse_example:
  "sparse_soft_weighted_medoid_k_neighborhood
     (Sparse \<lparr>st_rows = [1, 2], st_cols = [2, 0], st_values = [0.9, 0.2], st_size = 3\<rparr>)
     [[1], [0], [0]] 1 1 True (1 / 10 ^ 10)
   = Inr [[0], [0], [0]]"
proof -
  have n: "length [[1], [0], [0 :: real]] = 3" by simp
  have c: "add_missing_rows 3 (coo (Sparse \<lparr>st_rows = [1, 2], st_cols = [2, 0], st_values = [0.9, 0.2], st_size = 3\<rparr>))
      = ([1, 2, 0], [2, 0, 0], [0.9, 0.2, 0])"
    using add_missing_rows_example by simp
  show ?thesis
    unfolding sparse_branch_unfold[OF n c sparse_top_k_example partial_distance_example] scatter_sum_example
    by (simp add: softmax_single spmm_def ncols_def select_mask_def upt_rec)
qed

text \<open>
  C1. The claim is that the dense and the sparse implementation return the same result for
  every adjacency and feature matrix. For the adjacency \<open>[[0, 0, 0], [0, 0, 0.9], [0.2, 0, 0]]\<close>,
  the features \<open>[[1], [0], [0]]\<close>, \<open>k = 1\<close>, temperature 1 and the weight correction, the
  dense implementation (taken below the threshold) returns about \<open>0.2\<close> for node 2, which
  is the weight of its only neighbour, node 0, times the feature of node 0. The sparse
  branch (taken with threshold 0) returns 0 for node 2: the selector has paired the
  neighbour of node 2 with the weight 0 of the placeholder entry.
\<close>

theorem dense_and_sparse_disagree:
  "soft_weighted_medoid_k_neighborhood
     (Sparse \<lparr>st_rows = [1, 2], st_cols = [2, 0], st_values = [0.9, 0.2], st_size = 3\<rparr>)
     [[1], [0], [0]] 1 1 True 5000 (1 / 10 ^ 10)
     = Inr [[0], [0], [0.2 * (0.2 / (0.2 + 1 / 10 ^ 10))]]
   \<and> soft_weighted_medoid_k_neighborhood
     (Sparse \<lparr>st_rows = [1, 2], st_cols = [2, 0], st_values = [0.9, 0.2], st_size = 3\<rparr>)
     [[1], [0], [0]] 1 1 True 0 (1 / 10 ^ 10)
     = Inr [[0], [0], [0]]
   \<and> (0.19 :: real) < 0.2 * (0.2 / (0.2 + 1 / 10 ^ 10))"
proof -
  have "soft_weighted_medoid_k_neighborhood
     (Sparse \<lparr>st_rows = [1, 2], st_cols = [2, 0], st_values = [0.9, 0.2], st_size = 3\<rparr>)
     [[1], [0], [0]] 1 1 True 5000 (1 / 10 ^ 10)
     = Inr (dense_cpu_soft_weighted_medoid_k_neighborhood
        (Sparse \<lparr>st_rows = [1, 2], st_cols = [2, 0], st_values = [0.9, 0.2], st_size = 3\<rparr>)
        [[1], [0], [0]] 1 1 True (1 / 10 ^ 10))"
    by (simp add: soft_weighted_medoid_k_neighborhood_def)
  moreover have "soft_weighted_medoid_k_neighborhood
     (Sparse \<lparr>st_rows = [1, 2], st_cols = [2, 0], st_values = [0.9, 0.2], st_size = 3\<rparr>)
     [[1], [0], [0]] 1 1 True 0 (1 / 10 ^ 10)
     = sparse_soft_weighted_medoid_k_neighborhood
        (Sparse \<lparr>st_rows = [1, 2], st_cols = [2, 0], st_values = [0.9, 0.2], st_size = 3\<rparr>)
        [[1], [0], [0]] 1 1 True (1 / 10 ^ 10)"
    by (simp add: soft_weighted_medoid_k_neighborhood_def)
  moreover have "(0.19 :: real) < 0.2 * (0.2 / (0.2 + 1 / 10 ^ 10))" by simp
  ultimately show ?thesis by (simp only: dense_example sparse_example simp_thms)
qed

section \<open>The soft weighted medoid on a node without outgoing edges\<close>

lemma distance_matrix_ieee_shape:
  "length (distance_matrix_ieee x e) = length x"
  "c < length x \<Longrightarrow> length (distance_matrix_ieee x e ! c) = length x"
  by (simp_all add: distance_matrix_ieee_def Let_def)

lemma soft_weighted_medoid_ieee_row:
  assumes "i < length A"
  shows "soft_weighted_medoid_ieee A x temperature ! i =
     map (fl_mul (fl_sum (A ! i)))
       (row_matmul_ieee
          (softmax_ieee (map (\<lambda>d. fl_div (fl_neg d) temperature)
             (weighted_distance_sums_ieee A (distance_matrix_ieee x 100) ! i))) x (ncols x))"
  using assms by (simp add: soft_weighted_medoid_ieee_def Let_def weighted_distance_sums_ieee_def)

lemma overflow_flt_max: "overflow flt_max = Fin flt_max" "overflow (2 * flt_max) = PInf"
  "overflow (- (flt_max * 1000)) = NInf" "overflow 0 = Fin 0"
  by (simp_all add: overflow_def flt_max_def)

lemma zero_row_distances:
  assumes "length l2 = 4" "\<And>c. c < 4 \<Longrightarrow> length (l2 ! c) = 4"
  shows "weighted_distance_sums_ieee [r0, r1, r2, [Fin 0, Fin 0, Fin 0, Fin 0]] l2 ! 3
       = [Fin flt_max, Fin flt_max, Fin flt_max, Fin flt_max]"
proof -
  obtain a b c d where l2: "l2 = [a, b, c, d]"
    using assms(1) by (auto simp: length_Suc_conv numeral_eq_Suc)
  have row: "fl_sum (map (\<lambda>d. Fin flt_max) (map2 fl_mul [Fin 0, Fin 0, Fin 0, Fin 0] v)) = PInf"
    if "length v = 4" for v
  proof -
    from that obtain p q r s where "v = [p, q, r, s]"
      by (auto simp: length_Suc_conv numeral_eq_Suc)
    then show ?thesis by (simp add: fl_sum_def overflow_flt_max)
  qed
  have "length a = 4" "length b = 4" "length c = 4" "length d = 4"
    using assms(2)[of 0] assms(2)[of 1] assms(2)[of 2] assms(2)[of 3] l2 by simp_all
  then show ?thesis by (simp add: weighted_distance_sums_ieee_def l2 Let_def row[simplified])
qed

text \<open>
  C2. The claim is that every aggregation variant returns finite entries, and the zero
  vector for a row without weight. The adjacency below is the one of the repository's
  tests for disconnected nodes, with the tests' features and temperature \<open>0.001\<close>. Node 3
  has no outgoing edge, so every column is masked for it and all its distance sums are
  the largest float. Divided by the temperature they overflow to \<open>-inf\<close>, the softmax of a
  row of \<open>-inf\<close> is \<open>0 / 0\<close>, and the row of \<^verbatim>\<open>soft_weighted_medoid\<close> for node 3 is NaN, which
  the row sum 0 does not turn into 0.
\<close>

theorem soft_weighted_medoid_nan_on_disconnected_node:
  "soft_weighted_medoid_ieee
     (map (map Fin) [[0.5, 0.3, 0, 0], [0.3, 0.2, 0, 0], [0, 0, 0.9, 0], [0, 0, 0, 0]])
     (map (map Fin) [[- 10, 10, 10], [- 1, 1, 1], [0, 0, 0], [10, - 10, - 10]])
     (Fin (1 / 1000)) ! 3
   = [NaN, NaN, NaN]"
proof -
  let ?x = "map (map Fin) [[- 10, 10, 10], [- 1, 1, 1], [0, 0, 0], [10, - 10, - 10]]"
  have d: "weighted_distance_sums_ieee
       (map (map Fin) [[0.5, 0.3, 0, 0], [0.3, 0.2, 0, 0], [0, 0, 0.9, 0], [0, 0, 0, 0]])
       (distance_matrix_ieee ?x 100) ! 3
     = [Fin flt_max, Fin flt_max, Fin flt_max, Fin flt_max]"
  proof -
    have s1: "length (distance_matrix_ieee ?x 100) = 4"
      by (simp add: distance_matrix_ieee_shape(1))
    have s2: "length (distance_matrix_ieee ?x 100 ! c) = 4" if "c < 4" for c
      using distance_matrix_ieee_shape(2)[where x = ?x and c = c and e = 100] that by simp
    from zero_row_distances[OF s1 s2] show ?thesis by simp
  qed
  have i: "3 < length (map (map Fin) [[0.5, 0.3, 0, 0], [0.3, 0.2, 0, 0], [0, 0, 0.9, 0], [0, 0, 0, 0 :: real]])"
    by simp
  show ?thesis
    unfolding soft_weighted_medoid_ieee_row[OF i] d
    by (simp add: softmax_ieee_def row_matmul_ieee_def fl_sum_def ncols_def overflow_flt_max upt_rec)
qed

section \<open>The dense soft k-medoid on rows whose softmax inputs agree\<close>






















section \<open>The weighted medoid with infinities and NaN\<close>



























end
